theory Spec2Isabelle
  imports Complex_Main "HOL-Library.Word"
begin

section \<open>Scalars\<close>

text \<open>
  The C++ type \<^verbatim>\<open>double\<close> as far as the operator uses it: it only compares doubles
  (\<^verbatim>\<open><\<close>, \<^verbatim>\<open><=\<close>, \<^verbatim>\<open>==\<close>), never computes with them.  Every finite double is a
  real number; a comparison with NaN is false.
\<close>

datatype double = Finite real | PosInf | NegInf | NaN

fun dle :: "double \<Rightarrow> double \<Rightarrow> bool" where
  "dle NaN _ = False"
| "dle _ NaN = False"
| "dle NegInf _ = True"
| "dle _ PosInf = True"
| "dle (Finite a) (Finite b) = (a \<le> b)"
| "dle PosInf _ = False"
| "dle (Finite a) NegInf = False"

fun dlt :: "double \<Rightarrow> double \<Rightarrow> bool" where
  "dlt NaN _ = False"
| "dlt _ NaN = False"
| "dlt (Finite a) (Finite b) = (a < b)"
| "dlt NegInf NegInf = False"
| "dlt NegInf _ = True"
| "dlt PosInf _ = False"
| "dlt (Finite a) PosInf = True"
| "dlt (Finite a) NegInf = False"

fun deq :: "double \<Rightarrow> double \<Rightarrow> bool" where
  "deq NaN _ = False"
| "deq _ NaN = False"
| "deq a b = (a = b)"

type_synonym int64 = "64 word"

section \<open>The sketch library, as the operator uses it\<close>

text \<open>
  \<^verbatim>\<open>velox/functions/lib/KllSketch.h\<close> is not among the sources.  The sketch's data is the
  record below; its algorithms (insertion with compaction, merging, estimation) are taken as
  the parameter \<open>lib\<close> of every function that calls them, so that what is proved holds for
  every implementation of them.
\<close>

text \<open>
  \<^verbatim>\<open>StlAllocator<T>(HashStringAllocator*)\<close> allocates from the operator's arena (named by
  a number here), \<^verbatim>\<open>std::allocator<T>\<close> from the heap.
\<close>

datatype Allocator = StlAllocator nat | StdAllocator

record 'a View =
  viewK :: nat
  viewN :: nat
  viewMinValue :: 'a
  viewMaxValue :: 'a
  viewItems :: "'a list"
  viewLevels :: "nat list"

record 'a KllSketch =
  skK :: nat
  skN :: nat
  skMinValue :: 'a
  skMaxValue :: 'a
  skItems :: "'a list"
  skLevels :: "nat list"
  skIsLevelZeroSorted :: bool
  skAllocator :: Allocator
  skSeed :: nat

record 'a KllLib =
  kllInsert :: "'a \<Rightarrow> 'a KllSketch \<Rightarrow> 'a KllSketch"
  kllMerge :: "'a KllSketch list \<Rightarrow> 'a KllSketch \<Rightarrow> 'a KllSketch"
  kllMergeViews :: "'a View list \<Rightarrow> 'a KllSketch \<Rightarrow> 'a KllSketch"
  kllFromRepeatedValue :: "'a \<Rightarrow> int64 \<Rightarrow> nat \<Rightarrow> Allocator \<Rightarrow> nat \<Rightarrow> 'a KllSketch"
  kllCompact :: "'a KllSketch \<Rightarrow> 'a KllSketch"
  kllEstimateQuantile :: "'a KllSketch \<Rightarrow> double \<Rightarrow> 'a"
  kFromEpsilon :: "double \<Rightarrow> nat"

text \<open>
  Modelled from the spec: \<^verbatim>\<open>KllSketch::toView\<close> is missing from the sources; the spec has
  it expose \<open>(k, n, min, max, items, levels)\<close> of the sketch.
\<close>

definition toView :: "'a KllSketch \<Rightarrow> 'a View" where
  "toView s =
     \<lparr>viewK = skK s, viewN = skN s, viewMinValue = skMinValue s, viewMaxValue = skMaxValue s,
      viewItems = skItems s, viewLevels = skLevels s\<rparr>"

text \<open>The items of level 0: \<open>items[levels[0] ..< levels[1]]\<close>.\<close>

definition levelZero :: "'a list \<Rightarrow> nat list \<Rightarrow> 'a list" where
  "levelZero its lvs =
     (case lvs of
        b # e # _ \<Rightarrow> take (e - b) (drop b its)
      | _ \<Rightarrow> [])"

text \<open>
  Modelled from the spec: \<^verbatim>\<open>KllSketch::fromView\<close> is missing from the sources; the spec has
  it copy the view's fields into a fresh sketch owned by the given allocator.  A view carries
  no finished flag: the copy counts as finished exactly when its level 0 is sorted.
\<close>

definition fromView :: "('a::linorder) View \<Rightarrow> Allocator \<Rightarrow> nat \<Rightarrow> 'a KllSketch" where
  "fromView v allocator seed =
     \<lparr>skK = viewK v, skN = viewN v, skMinValue = viewMinValue v, skMaxValue = viewMaxValue v,
      skItems = viewItems v, skLevels = viewLevels v,
      skIsLevelZeroSorted = sorted (levelZero (viewItems v) (viewLevels v)),
      skAllocator = allocator, skSeed = seed\<rparr>"

text \<open>
  Modelled from the spec: \<^verbatim>\<open>KllSketch::finish\<close> is missing from the sources; the spec has
  it sort level 0 ascending, after which the sketch is finished.
\<close>

definition finish :: "('a::linorder) KllSketch \<Rightarrow> 'a KllSketch" where
  "finish s =
     (case skLevels s of
        b # e # _ \<Rightarrow>
          s\<lparr>skItems := take b (skItems s) @ sort (take (e - b) (drop b (skItems s)))
                         @ drop (b + (e - b)) (skItems s),
            skIsLevelZeroSorted := True\<rparr>
      | _ \<Rightarrow> s\<lparr>skIsLevelZeroSorted := True\<rparr>)"

text \<open>
  Modelled from the spec: \<^verbatim>\<open>KllSketch::totalCount\<close>, \<^verbatim>\<open>k\<close> and \<^verbatim>\<open>setK\<close> are missing
  from the sources; they read the sketch's \<open>n\<close> and read and write its \<open>k\<close>.
\<close>

definition totalCount :: "'a KllSketch \<Rightarrow> nat" where
  "totalCount s = skN s"

definition getK :: "'a KllSketch \<Rightarrow> nat" where
  "getK s = skK s"

definition setK :: "nat \<Rightarrow> 'a KllSketch \<Rightarrow> 'a KllSketch" where
  "setK k s = s\<lparr>skK := k\<rparr>"

section \<open>KllSketchAccumulator\<close>

text \<open>
  \<^verbatim>\<open>random::getSeed()\<close> is outside the sources; the value it returns is the parameter
  \<open>processSeed\<close>.
\<close>

definition getRandomSeed :: "nat \<Rightarrow> nat option \<Rightarrow> nat" where
  "getRandomSeed processSeed fixedRandomSeed =
     (case fixedRandomSeed of Some s \<Rightarrow> s | None \<Rightarrow> processSeed)"

record 'a KllSketchAccumulator =
  sketch :: "'a KllSketch"
  largeCountValues :: "('a \<times> int64) list"

definition setAccuracy :: "'a KllLib \<Rightarrow> double \<Rightarrow> 'a KllSketchAccumulator \<Rightarrow> 'a KllSketchAccumulator" where
  "setAccuracy lib v acc = acc\<lparr>sketch := setK (kFromEpsilon lib v) (sketch acc)\<rparr>"

text \<open>\<^verbatim>\<open>append(T value)\<close>.\<close>

definition append_one :: "'a KllLib \<Rightarrow> 'a \<Rightarrow> 'a KllSketchAccumulator \<Rightarrow> 'a KllSketchAccumulator" where
  "append_one lib v acc = acc\<lparr>sketch := kllInsert lib v (sketch acc)\<rparr>"

text \<open>
  \<^verbatim>\<open>mergeLargeCountValuesIntoSketch(allocator, sketch, fixedRandomSeed)\<close>: a const member;
  it changes only the sketch it is handed, which the model returns.
\<close>

definition mergeLargeCountValuesIntoSketch ::
  "'a KllLib \<Rightarrow> nat \<Rightarrow> Allocator \<Rightarrow> 'a KllSketch \<Rightarrow> nat option \<Rightarrow> 'a KllSketchAccumulator
     \<Rightarrow> 'a KllSketch" where
  "mergeLargeCountValuesIntoSketch lib processSeed allocator target fixedRandomSeed acc =
     (if largeCountValues acc \<noteq> [] then
        kllMerge lib
          (map (\<lambda>(x, n). kllFromRepeatedValue lib x n (getK (sketch acc)) allocator
                            (getRandomSeed processSeed fixedRandomSeed))
               (largeCountValues acc))
          target
      else target)"

definition flush ::
  "('a::linorder) KllLib \<Rightarrow> nat \<Rightarrow> nat \<Rightarrow> nat option \<Rightarrow> 'a KllSketchAccumulator
     \<Rightarrow> 'a KllSketchAccumulator" where
  "flush lib processSeed arena fixedRandomSeed acc =
     \<lparr>sketch = finish (mergeLargeCountValuesIntoSketch lib processSeed (StlAllocator arena)
                         (sketch acc) fixedRandomSeed acc),
      largeCountValues = []\<rparr>"

definition kMaxBufferSize :: nat where
  "kMaxBufferSize = 4096"

definition kMinCountToBuffer :: int64 where
  "kMinCountToBuffer = 512"

text \<open>
  The loop \<^verbatim>\<open>for (int i = 0; i < count; ++i) sketch_.insert(value)\<close>.  It runs only for
  \<open>count < 512\<close>, so the 32-bit counter never wraps.
\<close>

function insertLoop :: "'a KllLib \<Rightarrow> 'a \<Rightarrow> int \<Rightarrow> int \<Rightarrow> 'a KllSketch \<Rightarrow> 'a KllSketch" where
  "insertLoop lib v count i s =
     (if i < count then insertLoop lib v count (i + 1) (kllInsert lib v s) else s)"
  by pat_completeness auto
termination
  by (relation "measure (\<lambda>(lib, v, count, i, s). nat (count - i))") auto

declare insertLoop.simps [simp del]

text \<open>\<^verbatim>\<open>append(T value, int64_t count, allocator, fixedRandomSeed)\<close>.\<close>

definition append_weighted ::
  "('a::linorder) KllLib \<Rightarrow> nat \<Rightarrow> 'a \<Rightarrow> int64 \<Rightarrow> nat \<Rightarrow> nat option \<Rightarrow> 'a KllSketchAccumulator
     \<Rightarrow> 'a KllSketchAccumulator" where
  "append_weighted lib processSeed v count arena fixedRandomSeed acc =
     (if sint count < sint kMinCountToBuffer then
        acc\<lparr>sketch := insertLoop lib v (sint count) 0 (sketch acc)\<rparr>
      else
        (let acc' = acc\<lparr>largeCountValues := largeCountValues acc @ [(v, count)]\<rparr>
         in if length (largeCountValues acc') \<ge> kMaxBufferSize
            then flush lib processSeed arena fixedRandomSeed acc'
            else acc'))"

text \<open>
  \<^verbatim>\<open>compact(fixedRandomSeed) const\<close>: the copy is made with \<^verbatim>\<open>std::allocator\<close>; the
  accumulator is returned beside the new sketch, as the member leaves it.
\<close>

definition compact_acc ::
  "('a::linorder) KllLib \<Rightarrow> nat \<Rightarrow> nat option \<Rightarrow> 'a KllSketchAccumulator
     \<Rightarrow> 'a KllSketch \<times> 'a KllSketchAccumulator" where
  "compact_acc lib processSeed fixedRandomSeed acc =
     (let newSketch = fromView (toView (sketch acc)) StdAllocator
                        (getRandomSeed processSeed fixedRandomSeed);
          newSketch' = mergeLargeCountValuesIntoSketch lib processSeed StdAllocator newSketch
                         fixedRandomSeed acc
      in (kllCompact lib newSketch', acc))"

section \<open>Errors\<close>

text \<open>
  \<^verbatim>\<open>VELOX_USER_CHECK\<close> and \<^verbatim>\<open>VELOX_USER_FAIL\<close> raise a user error, \<^verbatim>\<open>VELOX_CHECK\<close> a runtime
  error.  The constructors name the messages of the source:
  \<open>WeightOutOfRange\<close> "weight must be in range [1, ...]",
  \<open>PercentileNull\<close> "Percentile cannot be null",
  \<open>PercentileNotConstant\<close> "Percentile argument must be constant for all input rows",
  \<open>PercentileEmpty\<close> "Percentile cannot be empty",
  \<open>PercentileOutOfRange\<close> "Percentile must be between 0 and 1",
  \<open>PercentileIncorrectType\<close> "Incorrect type for percentile",
  \<open>AccuracyNull\<close> "Accuracy cannot be null",
  \<open>AccuracyOutOfRange\<close> "Accuracy must be between 0 and 1",
  \<open>AccuracyNotConstant\<close> "Accuracy argument must be constant for all input rows".
\<close>

datatype VeloxUserError =
    WeightOutOfRange
  | PercentileNull
  | PercentileNotConstant
  | PercentileEmpty
  | PercentileOutOfRange
  | PercentileIncorrectType
  | AccuracyNull
  | AccuracyOutOfRange
  | AccuracyNotConstant

datatype VeloxRuntimeError =
    QueryOnUnfinishedSketch
  | ResultVectorOfOtherType
  | PercentileCountNotOne
  | ItemsCountTooLarge

datatype VeloxError = UserError VeloxUserError | RuntimeError VeloxRuntimeError

section \<open>Decoded input columns\<close>

text \<open>
  \<^verbatim>\<open>DecodedVector\<close> and \<^verbatim>\<open>SelectivityVector\<close> are not among the sources.  A decoded column is
  what the operator reads of it: the null flags (absent when the column has none), the values,
  the row-to-base index and whether the mapping is constant.  The selected rows are the list
  of their numbers in ascending order, which is the order \<^verbatim>\<open>applyToSelected\<close> visits them.
\<close>

record 'v DecodedVector =
  dvNulls :: "(nat \<Rightarrow> bool) option"
  dvData :: "nat \<Rightarrow> 'v"
  dvIndex :: "nat \<Rightarrow> nat"
  dvIsConstantMapping :: bool

definition isNullAt :: "'v DecodedVector \<Rightarrow> nat \<Rightarrow> bool" where
  "isNullAt d row = (case dvNulls d of None \<Rightarrow> False | Some nulls \<Rightarrow> nulls row)"

definition mayHaveNulls :: "'v DecodedVector \<Rightarrow> bool" where
  "mayHaveNulls d = (dvNulls d \<noteq> None)"

definition valueAt :: "'v DecodedVector \<Rightarrow> nat \<Rightarrow> 'v" where
  "valueAt d row = dvData d row"

definition rowsBegin :: "nat list \<Rightarrow> nat" where
  "rowsBegin rows = (case rows of [] \<Rightarrow> 0 | r # _ \<Rightarrow> r)"

fun applyToSelected :: "(nat \<Rightarrow> 's \<Rightarrow> VeloxError + 's) \<Rightarrow> nat list \<Rightarrow> 's \<Rightarrow> VeloxError + 's" where
  "applyToSelected f [] s = Inr s"
| "applyToSelected f (row # rows) s =
     (case f row s of Inl e \<Rightarrow> Inl e | Inr s' \<Rightarrow> applyToSelected f rows s')"

section \<open>ApproxPercentileAggregate: members\<close>

text \<open>The field \<^verbatim>\<open>values\<close> of \<^verbatim>\<open>Percentiles\<close> is \<open>percentileValues\<close> here.\<close>

record Percentiles =
  percentileValues :: "double list"
  isArray :: bool

record ApproxPercentileAggregate =
  hasWeight :: bool
  hasAccuracy :: bool
  fixedRandomSeed :: "nat option"
  percentiles :: "Percentiles option"
  accuracy :: double
  allocator :: nat

definition kMissingNormalizedValue :: double where
  "kMissingNormalizedValue = Finite (- 1)"

text \<open>
  The accumulators live in the groups' rows: a store from a group's address to its
  accumulator.
\<close>

type_synonym 'a Groups = "nat \<Rightarrow> 'a KllSketchAccumulator"

section \<open>Weights\<close>

definition kMaxWeight :: int64 where
  "kMaxWeight = push_bit 60 1 - 1"

definition checkWeight :: "int64 \<Rightarrow> VeloxError + unit" where
  "checkWeight weight =
     (if sint (1 :: int64) \<le> sint weight \<and> sint weight \<le> sint kMaxWeight then Inr ()
      else Inl (UserError WeightOutOfRange))"

section \<open>Percentile resolution\<close>

text \<open>
  The percentile argument: its decoding over the selected rows and the base vector under it.
  A base vector of doubles has null flags and raw values; one of arrays has null flags,
  offsets, sizes and its elements, given as \<^verbatim>\<open>decoded.decode(*arrays->elements())\<close> reads
  them; a base vector of another type has only its row comparison.
\<close>

datatype BaseVector =
    DoubleVector "nat \<Rightarrow> bool" "nat \<Rightarrow> double"
  | ArrayVector "nat \<Rightarrow> bool" "nat \<Rightarrow> nat" "nat \<Rightarrow> nat" "double DecodedVector"
  | OtherVector "nat \<Rightarrow> nat \<Rightarrow> bool"

record PercentileArg =
  paDecoded :: "double DecodedVector"
  paBase :: BaseVector

text \<open>
  Modelled from the spec: \<^verbatim>\<open>BaseVector::equalValueAt\<close> is missing from the sources; the spec
  has each selected row equal the first row "by value comparison".  Two nulls are equal, a
  null and a value are not, arrays are equal when their sizes and their elements are.
\<close>

definition equalElementAt :: "double DecodedVector \<Rightarrow> nat \<Rightarrow> nat \<Rightarrow> bool" where
  "equalElementAt elements i j =
     (if isNullAt elements i \<or> isNullAt elements j
      then isNullAt elements i \<and> isNullAt elements j
      else valueAt elements i = valueAt elements j)"

fun equalValueAt :: "BaseVector \<Rightarrow> nat \<Rightarrow> nat \<Rightarrow> bool" where
  "equalValueAt (DoubleVector nulls raw) i j =
     (if nulls i \<or> nulls j then nulls i \<and> nulls j else raw i = raw j)"
| "equalValueAt (ArrayVector nulls offsets sizes elements) i j =
     (if nulls i \<or> nulls j then nulls i \<and> nulls j
      else sizes i = sizes j \<and>
           list_all (\<lambda>k. equalElementAt elements (offsets i + k) (offsets j + k)) [0..<sizes i])"
| "equalValueAt (OtherVector eq) i j = eq i j"

text \<open>
  The first loop of \<^verbatim>\<open>checkSetPercentile(isArray, percentiles, offset, len)\<close>, over
  \<open>i = 0, ..., len - 1\<close>: the null test reads index \<open>i\<close>, the value index \<open>offset + i\<close>.
\<close>

fun setPercentileLoop ::
  "double DecodedVector \<Rightarrow> nat \<Rightarrow> nat list \<Rightarrow> double list \<Rightarrow> VeloxError + double list" where
  "setPercentileLoop percentilesVec offset [] vals = Inr vals"
| "setPercentileLoop percentilesVec offset (i # rest) vals =
     (if isNullAt percentilesVec i then Inl (UserError PercentileNull)
      else
        (let v = valueAt percentilesVec (offset + i)
         in if \<not> dle (Finite 0) v then Inl (UserError PercentileOutOfRange)
            else if \<not> dle v (Finite 1) then Inl (UserError PercentileOutOfRange)
            else setPercentileLoop percentilesVec offset rest (vals[i := v])))"

text \<open>The second loop: every value equals the one resolved before.\<close>

fun samePercentileLoop ::
  "double DecodedVector \<Rightarrow> nat \<Rightarrow> nat list \<Rightarrow> double list \<Rightarrow> VeloxError + unit" where
  "samePercentileLoop percentilesVec offset [] vals = Inr ()"
| "samePercentileLoop percentilesVec offset (i # rest) vals =
     (if \<not> deq (valueAt percentilesVec (offset + i)) (vals ! i)
      then Inl (UserError PercentileNotConstant)
      else samePercentileLoop percentilesVec offset rest vals)"

definition checkSetPercentileValues ::
  "bool \<Rightarrow> double DecodedVector \<Rightarrow> nat \<Rightarrow> nat \<Rightarrow> ApproxPercentileAggregate
     \<Rightarrow> VeloxError + ApproxPercentileAggregate" where
  "checkSetPercentileValues isArr percentilesVec offset len agg =
     (case percentiles agg of
        None \<Rightarrow>
          (if \<not> len > 0 then Inl (UserError PercentileEmpty)
           else
             (case setPercentileLoop percentilesVec offset [0..<len] (replicate len (Finite 0)) of
                Inl e \<Rightarrow> Inl e
              | Inr vals \<Rightarrow>
                  Inr (agg\<lparr>percentiles := Some \<lparr>percentileValues = vals, isArray = isArr\<rparr>\<rparr>)))
      | Some p \<Rightarrow>
          (if isArr \<noteq> isArray p then Inl (UserError PercentileNotConstant)
           else if len \<noteq> length (percentileValues p) then Inl (UserError PercentileNotConstant)
           else
             (case samePercentileLoop percentilesVec offset [0..<len] (percentileValues p) of
                Inl e \<Rightarrow> Inl e
              | Inr _ \<Rightarrow> Inr agg)))"

text \<open>\<^verbatim>\<open>checkSetPercentile(rows, vec)\<close>.\<close>

definition checkPercentileRow :: "PercentileArg \<Rightarrow> nat \<Rightarrow> nat \<Rightarrow> unit \<Rightarrow> VeloxError + unit" where
  "checkPercentileRow arg baseFirstRow row u =
     (if isNullAt (paDecoded arg) row then Inl (UserError PercentileNull)
      else if \<not> equalValueAt (paBase arg) (dvIndex (paDecoded arg) row) baseFirstRow
      then Inl (UserError PercentileNotConstant)
      else Inr ())"

definition checkSetPercentile ::
  "nat list \<Rightarrow> PercentileArg \<Rightarrow> ApproxPercentileAggregate \<Rightarrow> VeloxError + ApproxPercentileAggregate" where
  "checkSetPercentile rows arg agg =
     (let decoded = paDecoded arg;
          baseFirstRow = dvIndex decoded (rowsBegin rows)
      in case (if \<not> dvIsConstantMapping decoded
               then applyToSelected (checkPercentileRow arg baseFirstRow) rows ()
               else Inr ()) of
           Inl e \<Rightarrow> Inl e
         | Inr _ \<Rightarrow>
             (case paBase arg of
                DoubleVector nulls raw \<Rightarrow>
                  checkSetPercentileValues False decoded (rowsBegin rows) 1 agg
              | ArrayVector nulls offsets sizes elements \<Rightarrow>
                  checkSetPercentileValues True elements (offsets baseFirstRow)
                    (sizes baseFirstRow) agg
              | OtherVector eq \<Rightarrow> Inl (UserError PercentileIncorrectType)))"

section \<open>Accuracy resolution\<close>

text \<open>\<^verbatim>\<open>checkSetAccuracy(double accuracy)\<close>.\<close>

definition checkSetAccuracyValue ::
  "double \<Rightarrow> ApproxPercentileAggregate \<Rightarrow> VeloxError + ApproxPercentileAggregate" where
  "checkSetAccuracyValue a agg =
     (if \<not> (dlt (Finite 0) a \<and> dle a (Finite 1)) then Inl (UserError AccuracyOutOfRange)
      else if deq (accuracy agg) kMissingNormalizedValue then Inr (agg\<lparr>accuracy := a\<rparr>)
      else if \<not> deq a (accuracy agg) then Inl (UserError AccuracyNotConstant)
      else Inr agg)"

text \<open>The body of the loop of \<^verbatim>\<open>checkSetAccuracy(rows)\<close> for a column that is not constant.\<close>

definition checkSetAccuracyRow ::
  "double DecodedVector \<Rightarrow> nat \<Rightarrow> ApproxPercentileAggregate
     \<Rightarrow> VeloxError + ApproxPercentileAggregate" where
  "checkSetAccuracyRow decodedAccuracy row agg =
     (if isNullAt decodedAccuracy row then Inl (UserError AccuracyNull)
      else
        (let a = valueAt decodedAccuracy row
         in case (if deq (accuracy agg) kMissingNormalizedValue
                  then checkSetAccuracyValue a agg else Inr agg) of
              Inl e \<Rightarrow> Inl e
            | Inr agg' \<Rightarrow>
                if \<not> deq a (accuracy agg') then Inl (UserError AccuracyNotConstant)
                else Inr agg'))"

definition checkSetAccuracy ::
  "double DecodedVector \<Rightarrow> nat list \<Rightarrow> ApproxPercentileAggregate
     \<Rightarrow> VeloxError + ApproxPercentileAggregate" where
  "checkSetAccuracy decodedAccuracy rows agg =
     (if \<not> hasAccuracy agg then Inr agg
      else if dvIsConstantMapping decodedAccuracy then
        (if isNullAt decodedAccuracy 0 then Inl (UserError AccuracyNull)
         else checkSetAccuracyValue (valueAt decodedAccuracy 0) agg)
      else applyToSelected (checkSetAccuracyRow decodedAccuracy) rows agg)"

section \<open>Raw input\<close>

text \<open>
  The arguments of \<^verbatim>\<open>addRawInput\<close> as \<^verbatim>\<open>decodeArguments\<close> reads them; the weight and the
  accuracy are read only when the signature has them.
\<close>

record 'a RawArgs =
  argValue :: "'a DecodedVector"
  argWeight :: "int64 DecodedVector"
  argPercentile :: PercentileArg
  argAccuracy :: "double DecodedVector"

definition decodeArguments ::
  "nat list \<Rightarrow> 'a RawArgs \<Rightarrow> ApproxPercentileAggregate \<Rightarrow> VeloxError + ApproxPercentileAggregate" where
  "decodeArguments rows args agg =
     (case checkSetPercentile rows (argPercentile args) agg of
        Inl e \<Rightarrow> Inl e
      | Inr agg' \<Rightarrow>
          if hasAccuracy agg' then checkSetAccuracy (argAccuracy args) rows agg' else Inr agg')"

definition initRawAccumulator ::
  "'a KllLib \<Rightarrow> ApproxPercentileAggregate \<Rightarrow> 'a KllSketchAccumulator \<Rightarrow> 'a KllSketchAccumulator" where
  "initRawAccumulator lib agg acc =
     (if \<not> deq (accuracy agg) kMissingNormalizedValue then setAccuracy lib (accuracy agg) acc
      else acc)"

text \<open>
  The three loop bodies of \<^verbatim>\<open>addRawInput\<close>; \<open>groups row\<close> is the address \<^verbatim>\<open>groups[row]\<close>.
  (\<^verbatim>\<open>trackRowSize\<close> only accounts memory.)
\<close>

definition addRawInputWeightedRow ::
  "('a::linorder) KllLib \<Rightarrow> nat \<Rightarrow> ApproxPercentileAggregate \<Rightarrow> 'a DecodedVector
     \<Rightarrow> int64 DecodedVector \<Rightarrow> (nat \<Rightarrow> nat) \<Rightarrow> nat \<Rightarrow> 'a Groups \<Rightarrow> VeloxError + 'a Groups" where
  "addRawInputWeightedRow lib processSeed agg decodedValue decodedWeight groups row store =
     (if isNullAt decodedValue row \<or> isNullAt decodedWeight row then Inr store
      else
        (let accumulator = initRawAccumulator lib agg (store (groups row));
             v = valueAt decodedValue row;
             weight = valueAt decodedWeight row
         in case checkWeight weight of
              Inl e \<Rightarrow> Inl e
            | Inr _ \<Rightarrow>
                Inr (store(groups row :=
                       append_weighted lib processSeed v weight (allocator agg)
                         (fixedRandomSeed agg) accumulator))))"

definition addRawInputNullableRow ::
  "'a KllLib \<Rightarrow> ApproxPercentileAggregate \<Rightarrow> 'a DecodedVector \<Rightarrow> (nat \<Rightarrow> nat) \<Rightarrow> nat
     \<Rightarrow> 'a Groups \<Rightarrow> VeloxError + 'a Groups" where
  "addRawInputNullableRow lib agg decodedValue groups row store =
     (if isNullAt decodedValue row then Inr store
      else
        (let accumulator = initRawAccumulator lib agg (store (groups row))
         in Inr (store(groups row := append_one lib (valueAt decodedValue row) accumulator))))"

definition addRawInputPlainRow ::
  "'a KllLib \<Rightarrow> ApproxPercentileAggregate \<Rightarrow> 'a DecodedVector \<Rightarrow> (nat \<Rightarrow> nat) \<Rightarrow> nat
     \<Rightarrow> 'a Groups \<Rightarrow> VeloxError + 'a Groups" where
  "addRawInputPlainRow lib agg decodedValue groups row store =
     (let accumulator = initRawAccumulator lib agg (store (groups row))
      in Inr (store(groups row := append_one lib (valueAt decodedValue row) accumulator)))"

text \<open>
  The loops of \<^verbatim>\<open>addRawInput\<close> after \<^verbatim>\<open>decodeArguments\<close>: one of the three, chosen by
  \<^verbatim>\<open>hasWeight_\<close> and \<^verbatim>\<open>decodedValue_.mayHaveNulls()\<close>.
\<close>

definition addRawInputLoop ::
  "('a::linorder) KllLib \<Rightarrow> nat \<Rightarrow> ApproxPercentileAggregate \<Rightarrow> 'a RawArgs \<Rightarrow> (nat \<Rightarrow> nat)
     \<Rightarrow> nat list \<Rightarrow> 'a Groups \<Rightarrow> VeloxError + 'a Groups" where
  "addRawInputLoop lib processSeed agg args groups rows store =
     (if hasWeight agg then
        applyToSelected
          (addRawInputWeightedRow lib processSeed agg (argValue args) (argWeight args) groups)
          rows store
      else if mayHaveNulls (argValue args) then
        applyToSelected (addRawInputNullableRow lib agg (argValue args) groups) rows store
      else
        applyToSelected (addRawInputPlainRow lib agg (argValue args) groups) rows store)"

definition addRawInput ::
  "('a::linorder) KllLib \<Rightarrow> nat \<Rightarrow> (nat \<Rightarrow> nat) \<Rightarrow> nat list \<Rightarrow> 'a RawArgs
     \<Rightarrow> ApproxPercentileAggregate \<times> 'a Groups
     \<Rightarrow> VeloxError + (ApproxPercentileAggregate \<times> 'a Groups)" where
  "addRawInput lib processSeed groups rows args state =
     (case decodeArguments rows args (fst state) of
        Inl e \<Rightarrow> Inl e
      | Inr agg \<Rightarrow>
          (case addRawInputLoop lib processSeed agg args groups rows (snd state) of
             Inl e \<Rightarrow> Inl e
           | Inr store \<Rightarrow> Inr (agg, store)))"

section \<open>An instance of the sketch library\<close>

text \<open>
  Modelled from the spec: the algorithms of \<^verbatim>\<open>KllSketch\<close> are missing from the sources.
  \<open>plainLib\<close> is the instance the examples are evaluated on.  It follows the spec's
  section 4.1 for sketches none of whose levels overflows, so no compaction runs: insert
  appends to level 0, merge joins the sketches level by level, a repeated value puts one copy
  on level \<open>i\<close> for every bit \<open>i\<close> of the count, an estimate scans the items by value until
  the weights reach the rank, and compact changes nothing that a view shows.  The spec gives
  no formula for \<^verbatim>\<open>kFromEpsilon\<close>; the instance takes the least \<open>k\<close> with \<open>2 / k \<le> \<epsilon>\<close>.
\<close>

fun levelOffsets :: "nat \<Rightarrow> 'a list list \<Rightarrow> nat list" where
  "levelOffsets b [] = [b]"
| "levelOffsets b (l # ls) = b # levelOffsets (b + length l) ls"

definition sketchLevels :: "'a KllSketch \<Rightarrow> 'a list list" where
  "sketchLevels s =
     map (\<lambda>(b, e). take (e - b) (drop b (skItems s))) (zip (skLevels s) (tl (skLevels s)))"

definition withLevels :: "'a list list \<Rightarrow> 'a KllSketch \<Rightarrow> 'a KllSketch" where
  "withLevels ls s = s\<lparr>skItems := concat ls, skLevels := levelOffsets 0 ls\<rparr>"

definition plainInsert :: "('a::linorder) \<Rightarrow> 'a KllSketch \<Rightarrow> 'a KllSketch" where
  "plainInsert v s =
     (withLevels (case sketchLevels s of [] \<Rightarrow> [[v]] | l # rest \<Rightarrow> (l @ [v]) # rest) s)
       \<lparr>skN := skN s + 1,
        skMinValue := (if skN s = 0 then v else min v (skMinValue s)),
        skMaxValue := (if skN s = 0 then v else max v (skMaxValue s)),
        skIsLevelZeroSorted := False\<rparr>"

fun mergeLevels :: "('a::linorder) list list \<Rightarrow> 'a list list \<Rightarrow> 'a list list" where
  "mergeLevels [] ys = ys"
| "mergeLevels xs [] = xs"
| "mergeLevels (x # xs) (y # ys) = sort (x @ y) # mergeLevels xs ys"

definition plainMergeOne :: "('a::linorder) KllSketch \<Rightarrow> 'a KllSketch \<Rightarrow> 'a KllSketch" where
  "plainMergeOne other s =
     (if skN other = 0 then s
      else
        (withLevels (mergeLevels (sketchLevels s) (sketchLevels other)) s)
          \<lparr>skK := (if skN s = 0 then skK other else min (skK s) (skK other)),
           skN := skN s + skN other,
           skMinValue := (if skN s = 0 then skMinValue other
                          else min (skMinValue s) (skMinValue other)),
           skMaxValue := (if skN s = 0 then skMaxValue other
                          else max (skMaxValue s) (skMaxValue other)),
           skIsLevelZeroSorted := True\<rparr>)"

fun countBits :: "nat \<Rightarrow> bool list" where
  "countBits n = (if n = 0 then [] else odd n # countBits (n div 2))"

declare countBits.simps [simp del]

definition plainFromRepeatedValue ::
  "'a \<Rightarrow> int64 \<Rightarrow> nat \<Rightarrow> Allocator \<Rightarrow> nat \<Rightarrow> 'a KllSketch" where
  "plainFromRepeatedValue v count k alloc seed =
     withLevels (map (\<lambda>b. if b then [v] else []) (countBits (unat count)))
       \<lparr>skK = k, skN = unat count, skMinValue = v, skMaxValue = v, skItems = [], skLevels = [],
        skIsLevelZeroSorted = True, skAllocator = alloc, skSeed = seed\<rparr>"

fun weightedItems :: "nat \<Rightarrow> 'a list list \<Rightarrow> ('a \<times> nat) list" where
  "weightedItems i [] = []"
| "weightedItems i (l # ls) = map (\<lambda>x. (x, 2 ^ i)) l @ weightedItems (Suc i) ls"

fun scanRank :: "nat \<Rightarrow> ('a \<times> nat) list \<Rightarrow> 'a \<Rightarrow> 'a" where
  "scanRank r [] d = d"
| "scanRank r ((x, w) # rest) d = (if r \<le> w then x else scanRank (r - w) rest d)"

definition plainEstimateQuantile :: "('a::linorder) KllSketch \<Rightarrow> double \<Rightarrow> 'a" where
  "plainEstimateQuantile s p =
     scanRank (case p of Finite r \<Rightarrow> nat \<lceil>r * real (skN s)\<rceil> | _ \<Rightarrow> skN s)
       (sort_key fst (weightedItems 0 (sketchLevels s))) (skMaxValue s)"

definition plainLib :: "('a::linorder) KllLib" where
  "plainLib =
     \<lparr>kllInsert = plainInsert,
      kllMerge = (\<lambda>others s. fold plainMergeOne others s),
      kllMergeViews =
        (\<lambda>views s. fold (\<lambda>v. plainMergeOne (fromView v (skAllocator s) (skSeed s))) views s),
      kllFromRepeatedValue = plainFromRepeatedValue,
      kllCompact = (\<lambda>s. s),
      kllEstimateQuantile = plainEstimateQuantile,
      kFromEpsilon = (\<lambda>e. case e of Finite r \<Rightarrow> nat \<lceil>2 / r\<rceil> | _ \<Rightarrow> 0)\<rparr>"

text \<open>An empty sketch in the arena 0 with the default \<open>k\<close>, and an accumulator around it.\<close>

definition emptySketch :: "int KllSketch" where
  "emptySketch =
     \<lparr>skK = 200, skN = 0, skMinValue = 0, skMaxValue = 0, skItems = [], skLevels = [0, 0],
      skIsLevelZeroSorted = False, skAllocator = StlAllocator 0, skSeed = 1\<rparr>"

definition emptyAccumulator :: "int KllSketchAccumulator" where
  "emptyAccumulator = \<lparr>sketch = emptySketch, largeCountValues = []\<rparr>"

section \<open>Example inputs\<close>

text \<open>
  A batch of five rows.  The value of row 2 and the weight of row 3 are null; the weights of
  rows 0, 1 and 2 are out of range (0, \<open>2\<^sup>6\<^sup>0\<close> and 0), that of row 4 is 5.  The percentile
  column is the constant 0.5 and the accuracy column the constant 0.25.
\<close>

definition exampleValues :: "int DecodedVector" where
  "exampleValues =
     \<lparr>dvNulls = Some (\<lambda>r. r = 2), dvData = (\<lambda>r. 10 + int r), dvIndex = (\<lambda>r. r),
      dvIsConstantMapping = False\<rparr>"

definition exampleWeights :: "int64 DecodedVector" where
  "exampleWeights =
     \<lparr>dvNulls = Some (\<lambda>r. r = 3),
      dvData = (\<lambda>r. if r = 1 then 2 ^ 60 else if r = 4 then 5 else 0),
      dvIndex = (\<lambda>r. r), dvIsConstantMapping = False\<rparr>"


definition exampleAccuracy :: "double DecodedVector" where
  "exampleAccuracy =
     \<lparr>dvNulls = None, dvData = (\<lambda>r. Finite (1 / 4)), dvIndex = (\<lambda>r. 0),
      dvIsConstantMapping = True\<rparr>"


text \<open>A column of accuracies that is not constant-encoded: 0.25 in every row but row 3.\<close>

definition exampleAccuracyRows :: "double DecodedVector" where
  "exampleAccuracyRows =
     \<lparr>dvNulls = None, dvData = (\<lambda>r. if r = 3 then Finite (1 / 2) else Finite (1 / 4)),
      dvIndex = (\<lambda>r. r), dvIsConstantMapping = False\<rparr>"

text \<open>The operator of the signature with weight and accuracy, before any input.\<close>

definition exampleAggregate :: ApproxPercentileAggregate where
  "exampleAggregate =
     \<lparr>hasWeight = True, hasAccuracy = True, fixedRandomSeed = Some 42, percentiles = None,
      accuracy = kMissingNormalizedValue, allocator = 0\<rparr>"

text \<open>
  A percentile column of doubles that is not constant-encoded: row 0 is null, every other
  row holds 0.5.  And a percentile column of arrays: row 0 is \<open>[0.5]\<close>, row 1 is \<open>[null]\<close>,
  with 0.25 in the raw value under the null element.
\<close>

definition maskedPercentile :: PercentileArg where
  "maskedPercentile =
     \<lparr>paDecoded = \<lparr>dvNulls = Some (\<lambda>r. r = 0), dvData = (\<lambda>r. Finite (1 / 2)),
                    dvIndex = (\<lambda>r. r), dvIsConstantMapping = False\<rparr>,
      paBase = DoubleVector (\<lambda>r. r = 0) (\<lambda>r. Finite (1 / 2))\<rparr>"

definition nullElementPercentile :: PercentileArg where
  "nullElementPercentile =
     \<lparr>paDecoded = \<lparr>dvNulls = None, dvData = (\<lambda>r. Finite 0), dvIndex = (\<lambda>r. r),
                    dvIsConstantMapping = False\<rparr>,
      paBase = ArrayVector (\<lambda>r. False) (\<lambda>r. r) (\<lambda>r. 1)
                 \<lparr>dvNulls = Some (\<lambda>i. i = 1),
                  dvData = (\<lambda>i. if i = 1 then Finite (1 / 4) else Finite (1 / 2)),
                  dvIndex = (\<lambda>i. i), dvIsConstantMapping = False\<rparr>\<rparr>"

section \<open>Result vectors\<close>

text \<open>
  The vector classes (\<^verbatim>\<open>velox/vector\<close>) are not among the sources.  A vector is modelled by
  what the operator's calls read and write of it: its size, its null bits when it has a nulls
  buffer (a bit equal to \<^verbatim>\<open>bits::kNull\<close> marks a null row), and its buffers as functions of
  the index, so that what lies beyond the size is whatever the buffer held.
\<close>

definition kNull :: bool where
  "kNull = False"

record VectorBase =
  vecSize :: nat
  vecNulls :: "(nat \<Rightarrow> bool) option"

definition vecIsNullAt :: "'m VectorBase_scheme \<Rightarrow> nat \<Rightarrow> bool" where
  "vecIsNullAt v i = (case vecNulls v of None \<Rightarrow> False | Some bits \<Rightarrow> bits i = kNull)"

definition vecMayHaveNulls :: "'m VectorBase_scheme \<Rightarrow> bool" where
  "vecMayHaveNulls v = (vecNulls v \<noteq> None)"

text \<open>\<^verbatim>\<open>resize\<close>: rows that are new are not null.\<close>

definition vecResize :: "nat \<Rightarrow> 'm VectorBase_scheme \<Rightarrow> 'm VectorBase_scheme" where
  "vecResize n v =
     v\<lparr>vecSize := n,
       vecNulls := map_option (\<lambda>bits i. if i < vecSize v then bits i else \<not> kNull) (vecNulls v)\<rparr>"

text \<open>\<^verbatim>\<open>setNull(i, isNull)\<close>: allocates the nulls buffer, all rows not null, when it must.\<close>

definition vecSetNull :: "nat \<Rightarrow> bool \<Rightarrow> 'm VectorBase_scheme \<Rightarrow> 'm VectorBase_scheme" where
  "vecSetNull i isNull v =
     (if vecNulls v = None \<and> \<not> isNull then v
      else v\<lparr>vecNulls :=
               Some ((case vecNulls v of None \<Rightarrow> (\<lambda>j. \<not> kNull) | Some bits \<Rightarrow> bits)
                       (i := (if isNull then kNull else \<not> kNull)))\<rparr>)"

text \<open>\<^verbatim>\<open>bits::clearBit(rawNulls, i)\<close> on the nulls buffer: the bit becomes 0.\<close>

definition vecClearBit :: "nat \<Rightarrow> 'm VectorBase_scheme \<Rightarrow> 'm VectorBase_scheme" where
  "vecClearBit i v = v\<lparr>vecNulls := map_option (\<lambda>bits. bits(i := False)) (vecNulls v)\<rparr>"

text \<open>\<^verbatim>\<open>bits::fillBits(rawNulls, 0, size, bits::kNull)\<close> on \<^verbatim>\<open>mutableRawNulls()\<close>.\<close>

definition vecFillNulls :: "nat \<Rightarrow> 'm VectorBase_scheme \<Rightarrow> 'm VectorBase_scheme" where
  "vecFillNulls n v =
     v\<lparr>vecNulls :=
         Some (\<lambda>i. if i < n then kNull
                    else (case vecNulls v of None \<Rightarrow> \<not> kNull | Some bits \<Rightarrow> bits i))\<rparr>"

record 'a FlatVector = VectorBase +
  flatValues :: "nat \<Rightarrow> 'a"

text \<open>\<^verbatim>\<open>FlatVector::set(i, value)\<close>: the value is stored and the row is not null.\<close>

definition flatSet :: "nat \<Rightarrow> 'a \<Rightarrow> 'a FlatVector \<Rightarrow> 'a FlatVector" where
  "flatSet i x v = vecSetNull i False (v\<lparr>flatValues := (flatValues v)(i := x)\<rparr>)"

record 'a ArrayVector = VectorBase +
  arrayOffsets :: "nat \<Rightarrow> nat"
  arraySizes :: "nat \<Rightarrow> nat"
  arrayElements :: "'a FlatVector"

definition setOffsetAndSize :: "nat \<Rightarrow> nat \<Rightarrow> nat \<Rightarrow> 'a ArrayVector \<Rightarrow> 'a ArrayVector" where
  "setOffsetAndSize i offset len v =
     v\<lparr>arrayOffsets := (arrayOffsets v)(i := offset), arraySizes := (arraySizes v)(i := len)\<rparr>"

text \<open>\<^verbatim>\<open>std::copy(xs.begin(), xs.end(), raw + offset)\<close>.\<close>

fun copyTo :: "(nat \<Rightarrow> 'a) \<Rightarrow> nat \<Rightarrow> 'a list \<Rightarrow> (nat \<Rightarrow> 'a)" where
  "copyTo raw offset [] = raw"
| "copyTo raw offset (x # xs) = copyTo (raw(offset := x)) (Suc offset) xs"

text \<open>
  The vector \<^verbatim>\<open>*result\<close> of \<^verbatim>\<open>extractValues\<close>: flat for a scalar percentile, an array for an
  array of percentiles, or the null constant the operator puts in its place.
\<close>

datatype 'a ResultVector =
    FlatResult "'a FlatVector"
  | ArrayResult "'a ArrayVector"
  | NullConstantResult nat

section \<open>Extracting values\<close>

text \<open>
  Modelled from the spec: \<^verbatim>\<open>KllSketch::estimateQuantile\<close> and \<^verbatim>\<open>estimateQuantiles\<close> are
  missing from the sources; the spec has "finished" as their precondition and a query on an
  unfinished sketch as an internal error, and has \<^verbatim>\<open>estimateQuantiles\<close> compute
  \<^verbatim>\<open>estimateQuantile\<close> for each percentile, in the order given.  The estimates themselves
  are the library's.
\<close>

definition estimateQuantile :: "'a KllLib \<Rightarrow> 'a KllSketch \<Rightarrow> double \<Rightarrow> VeloxError + 'a" where
  "estimateQuantile lib s p =
     (if skIsLevelZeroSorted s then Inr (kllEstimateQuantile lib s p)
      else Inl (RuntimeError QueryOnUnfinishedSketch))"

definition estimateQuantiles :: "'a KllLib \<Rightarrow> 'a KllSketch \<Rightarrow> double list \<Rightarrow> VeloxError + 'a list" where
  "estimateQuantiles lib s ps =
     (if skIsLevelZeroSorted s then Inr (map (kllEstimateQuantile lib s) ps)
      else Inl (RuntimeError QueryOnUnfinishedSketch))"

text \<open>
  \<^verbatim>\<open>extract(groups, numGroups, result, extractFunction)\<close>.  The variables the lambda captures
  by reference travel with the result vector as the second component.  \<open>rawNulls\<close> tells
  whether the pointer of that name is set.
\<close>

fun extractLoop ::
  "'a Groups \<Rightarrow> bool
     \<Rightarrow> ('a KllSketch \<Rightarrow> 'm VectorBase_scheme \<times> 'x \<Rightarrow> nat \<Rightarrow> VeloxError + 'm VectorBase_scheme \<times> 'x)
     \<Rightarrow> nat list \<Rightarrow> nat \<Rightarrow> 'm VectorBase_scheme \<times> 'x
     \<Rightarrow> VeloxError + 'm VectorBase_scheme \<times> 'x" where
  "extractLoop store rawNulls extractFunction [] i r = Inr r"
| "extractLoop store rawNulls extractFunction (grp # groups) i r =
     (let accumulator = store grp
      in if totalCount (sketch accumulator) = 0
         then extractLoop store rawNulls extractFunction groups (Suc i)
                (vecSetNull i True (fst r), snd r)
         else
           (case extractFunction (sketch accumulator)
                   (if rawNulls then vecClearBit i (fst r) else fst r, snd r) i of
              Inl e \<Rightarrow> Inl e
            | Inr r' \<Rightarrow> extractLoop store rawNulls extractFunction groups (Suc i) r'))"

definition extractGroups ::
  "'a Groups \<Rightarrow> nat list \<Rightarrow> 'm VectorBase_scheme \<times> 'x
     \<Rightarrow> ('a KllSketch \<Rightarrow> 'm VectorBase_scheme \<times> 'x \<Rightarrow> nat \<Rightarrow> VeloxError + 'm VectorBase_scheme \<times> 'x)
     \<Rightarrow> VeloxError + 'm VectorBase_scheme \<times> 'x" where
  "extractGroups store groups r extractFunction =
     (let result = vecResize (length groups) (fst r)
      in extractLoop store (vecMayHaveNulls result) extractFunction groups 0 (result, snd r))"

text \<open>The first loop of \<^verbatim>\<open>extractValues\<close>: every grp is flushed.\<close>

fun flushGroups ::
  "('a::linorder) KllLib \<Rightarrow> nat \<Rightarrow> ApproxPercentileAggregate \<Rightarrow> nat list \<Rightarrow> 'a Groups \<Rightarrow> 'a Groups" where
  "flushGroups lib processSeed agg [] store = store"
| "flushGroups lib processSeed agg (grp # groups) store =
     flushGroups lib processSeed agg groups
       (store(grp := flush lib processSeed (allocator agg) (fixedRandomSeed agg) (store grp)))"

text \<open>The loop that counts the elements of the array result.\<close>

fun countElements :: "'a Groups \<Rightarrow> nat \<Rightarrow> nat list \<Rightarrow> nat \<Rightarrow> nat" where
  "countElements store n [] elementsCount = elementsCount"
| "countElements store n (grp # groups) elementsCount =
     countElements store n groups
       (if totalCount (sketch (store grp)) > 0 then elementsCount + n else elementsCount)"

text \<open>The two lambdas handed to \<^verbatim>\<open>extract\<close>.\<close>

definition extractArrayValue ::
  "'a KllLib \<Rightarrow> double list \<Rightarrow> 'a KllSketch \<Rightarrow> 'a ArrayVector \<times> nat \<Rightarrow> nat
     \<Rightarrow> VeloxError + 'a ArrayVector \<times> nat" where
  "extractArrayValue lib ps digest r index =
     (let result = fst r; elementsCount = snd r
      in case estimateQuantiles lib digest ps of
           Inl e \<Rightarrow> Inl e
         | Inr qs \<Rightarrow>
             Inr (vecSetNull index False
                    (setOffsetAndSize index elementsCount (length ps)
                       (result\<lparr>arrayElements :=
                          (arrayElements result)
                            \<lparr>flatValues :=
                               copyTo (flatValues (arrayElements result)) elementsCount qs\<rparr>\<rparr>)),
                  elementsCount + length ps))"

text \<open>
  \<^verbatim>\<open>VELOX_DCHECK_EQ(percentiles_->values.size(), 1)\<close> guards \<^verbatim>\<open>values.back()\<close>; the model
  keeps the check.
\<close>

definition extractScalarValue ::
  "'a KllLib \<Rightarrow> double list \<Rightarrow> 'a KllSketch \<Rightarrow> 'a FlatVector \<times> unit \<Rightarrow> nat
     \<Rightarrow> VeloxError + 'a FlatVector \<times> unit" where
  "extractScalarValue lib ps digest r index =
     (if length ps \<noteq> 1 then Inl (RuntimeError PercentileCountNotOne)
      else
        (case estimateQuantile lib digest (last ps) of
           Inl e \<Rightarrow> Inl e
         | Inr q \<Rightarrow> Inr (flatSet index q (fst r), ())))"

text \<open>
  \<^verbatim>\<open>extractValues(groups, numGroups, result)\<close>.  \<^verbatim>\<open>asUnchecked\<close> and \<^verbatim>\<open>asFlatVector\<close> on a
  vector of another class have no defined result; the model reports them as an error.
\<close>

definition extractValues ::
  "('a::linorder) KllLib \<Rightarrow> nat \<Rightarrow> ApproxPercentileAggregate \<Rightarrow> nat list \<Rightarrow> 'a Groups
     \<Rightarrow> 'a ResultVector \<Rightarrow> VeloxError + 'a Groups \<times> 'a ResultVector" where
  "extractValues lib processSeed agg groups store result =
     (let store' = flushGroups lib processSeed agg groups store
      in case percentiles agg of
           None \<Rightarrow> Inr (store', NullConstantResult (length groups))
         | Some p \<Rightarrow>
             if isArray p then
               (case result of
                  ArrayResult arrayResult \<Rightarrow>
                    (let ps = percentileValues p;
                         elementsCount = countElements store' (length ps) groups 0;
                         arrayResult' = arrayResult\<lparr>arrayElements :=
                                          vecResize elementsCount (arrayElements arrayResult)\<rparr>
                     in case extractGroups store' groups (arrayResult', 0)
                               (extractArrayValue lib ps) of
                          Inl e \<Rightarrow> Inl e
                        | Inr r \<Rightarrow> Inr (store', ArrayResult (fst r)))
                | _ \<Rightarrow> Inl (RuntimeError ResultVectorOfOtherType))
             else
               (case result of
                  FlatResult flatResult \<Rightarrow>
                    (case extractGroups store' groups (flatResult, ())
                            (extractScalarValue lib (percentileValues p)) of
                       Inl e \<Rightarrow> Inl e
                     | Inr r \<Rightarrow> Inr (store', FlatResult (fst r)))
                | _ \<Rightarrow> Inl (RuntimeError ResultVectorOfOtherType)))"

text \<open>
  What a reader sees of the result: its size, whether row \<open>i\<close> is null, and the estimates of
  row \<open>i\<close> (one value of a flat vector, the slice of the elements of an array vector).
\<close>

fun resultSize :: "'a ResultVector \<Rightarrow> nat" where
  "resultSize (FlatResult v) = vecSize v"
| "resultSize (ArrayResult v) = vecSize v"
| "resultSize (NullConstantResult n) = n"

fun resultIsNullAt :: "'a ResultVector \<Rightarrow> nat \<Rightarrow> bool" where
  "resultIsNullAt (FlatResult v) i = vecIsNullAt v i"
| "resultIsNullAt (ArrayResult v) i = vecIsNullAt v i"
| "resultIsNullAt (NullConstantResult n) i = True"

fun resultValuesAt :: "'a ResultVector \<Rightarrow> nat \<Rightarrow> 'a list" where
  "resultValuesAt (FlatResult v) i = [flatValues v i]"
| "resultValuesAt (ArrayResult v) i =
     map (\<lambda>k. flatValues (arrayElements v) (arrayOffsets v i + k)) [0..<arraySizes v i]"
| "resultValuesAt (NullConstantResult n) i = []"

text \<open>
  The result vector the runtime hands over has the class of the signature's result type: flat
  for a scalar percentile, which is then one value, and an array for an array of percentiles.
\<close>

definition resultMatches :: "ApproxPercentileAggregate \<Rightarrow> 'a ResultVector \<Rightarrow> bool" where
  "resultMatches agg result =
     (case percentiles agg of
        None \<Rightarrow> True
      | Some p \<Rightarrow>
          (case result of
             FlatResult v \<Rightarrow> \<not> isArray p \<and> length (percentileValues p) = 1
           | ArrayResult v \<Rightarrow> isArray p
           | NullConstantResult n \<Rightarrow> False))"

text \<open>
  Groups at the addresses 0, 1 and 2.  The accumulator of group 0 holds the values 5 and 3 in
  its sketch and the pair (7, 600) in its buffer; that of group 1 is empty; that of group 2
  holds the value 9.  Two operators
  whose percentiles are resolved, to the scalar 0.5 and to the array \<open>[0, 0.5, 1]\<close>, and the
  result vectors handed to them, both empty.
\<close>

definition exampleGroups :: "int Groups" where
  "exampleGroups =
     (\<lambda>g. if g = 0
          then append_weighted plainLib 0 7 600 0 (Some 42)
                 (append_one plainLib 3 (append_one plainLib 5 emptyAccumulator))
          else if g = 2 then append_one plainLib 9 emptyAccumulator
          else emptyAccumulator)"

definition scalarAggregate :: ApproxPercentileAggregate where
  "scalarAggregate =
     exampleAggregate\<lparr>percentiles := Some \<lparr>percentileValues = [Finite (1 / 2)], isArray = False\<rparr>\<rparr>"

definition arrayAggregate :: ApproxPercentileAggregate where
  "arrayAggregate =
     exampleAggregate\<lparr>percentiles :=
       Some \<lparr>percentileValues = [Finite 0, Finite (1 / 2), Finite 1], isArray = True\<rparr>\<rparr>"

definition emptyFlatResult :: "int ResultVector" where
  "emptyFlatResult = FlatResult \<lparr>vecSize = 0, vecNulls = None, flatValues = (\<lambda>i. 0)\<rparr>"

definition emptyArrayResult :: "int ResultVector" where
  "emptyArrayResult =
     ArrayResult
       \<lparr>vecSize = 0, vecNulls = None, arrayOffsets = (\<lambda>i. 0), arraySizes = (\<lambda>i. 0),
        arrayElements = \<lparr>vecSize = 0, vecNulls = None, flatValues = (\<lambda>i. 0)\<rparr>\<rparr>"

section \<open>Extracting accumulators\<close>

text \<open>
  A constant vector: \<^verbatim>\<open>BaseVector::createNullConstant(type, size, pool)\<close>, or a
  \<^verbatim>\<open>ConstantVector\<close> of a size with its null flag and its value (\<^verbatim>\<open>wrapInConstant\<close> of
  row 0 of a one-row array gives the array's elements as the value).
\<close>

datatype 'v ConstantVector = NullConstant nat | Constant nat bool 'v

text \<open>
  The row vector \<^verbatim>\<open>*result\<close> of \<^verbatim>\<open>extractAccumulators\<close>: its own size and null bits, and its
  nine children in the order of the intermediate type.
\<close>

record 'a RowVector =
  rowBase :: VectorBase
  childPercentiles :: "double list ConstantVector"
  childPercentilesIsArray :: "bool ConstantVector"
  childAccuracy :: "double ConstantVector"
  childK :: "nat FlatVector"
  childN :: "nat FlatVector"
  childMinValue :: "'a FlatVector"
  childMaxValue :: "'a FlatVector"
  childItems :: "'a ArrayVector"
  childLevels :: "nat ArrayVector"

text \<open>
  \<^verbatim>\<open>ensureWritable(SelectivityVector{n})\<close>: the rows \<open>[0, n)\<close> can be written afterwards, so
  a shorter vector grows to \<open>n\<close> rows; \<^verbatim>\<open>resetNulls()\<close> drops the nulls buffer.
\<close>

definition ensureWritable :: "nat \<Rightarrow> 'm VectorBase_scheme \<Rightarrow> 'm VectorBase_scheme" where
  "ensureWritable n v = vecResize (max n (vecSize v)) v"

definition resetNulls :: "'m VectorBase_scheme \<Rightarrow> 'm VectorBase_scheme" where
  "resetNulls v = v\<lparr>vecNulls := None\<rparr>"

text \<open>The first loop: one compacted copy per group; the accumulators are handed back.\<close>

fun compactGroups ::
  "('a::linorder) KllLib \<Rightarrow> nat \<Rightarrow> ApproxPercentileAggregate \<Rightarrow> nat list \<Rightarrow> 'a Groups
     \<Rightarrow> 'a KllSketch list \<times> 'a Groups" where
  "compactGroups lib processSeed agg [] store = ([], store)"
| "compactGroups lib processSeed agg (grp # groups) store =
     (let (s, acc) = compact_acc lib processSeed (fixedRandomSeed agg) (store grp);
          (sketches, store') = compactGroups lib processSeed agg groups (store(grp := acc))
      in (s # sketches, store'))"

text \<open>The loop that counts the items and the levels of all sketches.\<close>

fun countItemsAndLevels :: "'a KllSketch list \<Rightarrow> nat \<times> nat \<Rightarrow> nat \<times> nat" where
  "countItemsAndLevels [] counts = counts"
| "countItemsAndLevels (s # sketches) counts =
     (let v = toView s
      in countItemsAndLevels sketches
           (fst counts + length (viewItems v), snd counts + length (viewLevels v)))"

text \<open>
  The last loop, from \<open>i\<close> on, and its body: the state is the row vector with
  \<^verbatim>\<open>itemsCount\<close> and \<^verbatim>\<open>levelsCount\<close>.  \<^verbatim>\<open>rawItems\<close> and \<^verbatim>\<open>rawLevels\<close> are the values of the elements of the
  children \<^verbatim>\<open>items\<close> and \<^verbatim>\<open>levels\<close>.
\<close>

definition writeSlice :: "nat \<Rightarrow> nat \<Rightarrow> 'e list \<Rightarrow> 'e ArrayVector \<Rightarrow> 'e ArrayVector" where
  "writeSlice i count xs a =
     setOffsetAndSize i count (length xs)
       (a\<lparr>arrayElements :=
            (arrayElements a)\<lparr>flatValues := copyTo (flatValues (arrayElements a)) count xs\<rparr>\<rparr>)"

definition serializeRow ::
  "'a KllSketch \<Rightarrow> nat \<Rightarrow> 'a RowVector \<times> nat \<times> nat \<Rightarrow> 'a RowVector \<times> nat \<times> nat" where
  "serializeRow s i st =
     (let rowResult = fst st; itemsCount = fst (snd st); levelsCount = snd (snd st);
          v = toView s
      in if viewN v = 0 then
           (rowResult\<lparr>rowBase := vecSetNull i True (rowBase rowResult)\<rparr>,
            itemsCount, levelsCount)
         else
           (rowResult
              \<lparr>rowBase := vecSetNull i False (rowBase rowResult),
               childK := flatSet i (viewK v) (childK rowResult),
               childN := flatSet i (viewN v) (childN rowResult),
               childMinValue := flatSet i (viewMinValue v) (childMinValue rowResult),
               childMaxValue := flatSet i (viewMaxValue v) (childMaxValue rowResult),
               childItems := writeSlice i itemsCount (viewItems v) (childItems rowResult),
               childLevels := writeSlice i levelsCount (viewLevels v) (childLevels rowResult)\<rparr>,
            itemsCount + length (viewItems v),
            levelsCount + length (viewLevels v)))"

fun serializeLoop ::
  "'a KllSketch list \<Rightarrow> nat \<Rightarrow> 'a RowVector \<times> nat \<times> nat \<Rightarrow> 'a RowVector \<times> nat \<times> nat" where
  "serializeLoop [] i st = st"
| "serializeLoop (s # sketches) i st = serializeLoop sketches (Suc i) (serializeRow s i st)"

text \<open>
  \<^verbatim>\<open>extractAccumulators(groups, numGroups, result)\<close>.  \<^verbatim>\<open>vector_size_t\<close> is a 32-bit signed
  integer, whose maximum \<^verbatim>\<open>VELOX_CHECK_LE\<close> compares the number of items with.
\<close>

definition kMaxVectorSize :: nat where
  "kMaxVectorSize = 2 ^ 31 - 1"

definition extractAccumulators ::
  "('a::linorder) KllLib \<Rightarrow> nat \<Rightarrow> ApproxPercentileAggregate \<Rightarrow> nat list \<Rightarrow> 'a Groups
     \<Rightarrow> 'a RowVector \<Rightarrow> VeloxError + 'a Groups \<times> 'a RowVector" where
  "extractAccumulators lib processSeed agg groups store rowResult =
     (let (sketches, store') = compactGroups lib processSeed agg groups store;
          numGroups = length groups
      in case percentiles agg of
           None \<Rightarrow>
             (let r = rowResult
                    \<lparr>rowBase := ensureWritable numGroups (rowBase rowResult),
                     childK := ensureWritable numGroups (childK rowResult),
                     childN := ensureWritable numGroups (childN rowResult),
                     childMinValue := ensureWritable numGroups (childMinValue rowResult),
                     childMaxValue := ensureWritable numGroups (childMaxValue rowResult),
                     childItems := ensureWritable numGroups (childItems rowResult),
                     childLevels := ensureWritable numGroups (childLevels rowResult),
                     childPercentiles := NullConstant numGroups,
                     childPercentilesIsArray := NullConstant numGroups,
                     childAccuracy := NullConstant numGroups\<rparr>
              in Inr (store', r\<lparr>rowBase := vecFillNulls (vecSize (rowBase r)) (rowBase r)\<rparr>))
         | Some p \<Rightarrow>
             (let r = rowResult
                    \<lparr>childPercentiles := Constant numGroups False (percentileValues p),
                     childPercentilesIsArray := Constant numGroups False (isArray p),
                     childAccuracy :=
                       Constant numGroups (deq (accuracy agg) kMissingNormalizedValue)
                         (accuracy agg),
                     rowBase := vecResize numGroups (rowBase rowResult),
                     childK := vecResize numGroups (childK rowResult),
                     childN := vecResize numGroups (childN rowResult),
                     childMinValue := vecResize numGroups (childMinValue rowResult),
                     childMaxValue := vecResize numGroups (childMaxValue rowResult),
                     childItems := vecResize numGroups (childItems rowResult),
                     childLevels := vecResize numGroups (childLevels rowResult)\<rparr>;
                  counts = countItemsAndLevels sketches (0, 0)
              in if \<not> fst counts \<le> kMaxVectorSize then Inl (RuntimeError ItemsCountTooLarge)
                 else
                   (let r' = r
                          \<lparr>childItems := (childItems r)
                             \<lparr>arrayElements :=
                                vecResize (fst counts) (resetNulls (arrayElements (childItems r)))\<rparr>,
                           childLevels := (childLevels r)
                             \<lparr>arrayElements :=
                                vecResize (snd counts) (resetNulls (arrayElements (childLevels r)))\<rparr>\<rparr>
                    in Inr (store', fst (serializeLoop sketches 0 (r', 0, 0))))))"

text \<open>
  What a reader sees of an array child: the slice of the elements that row \<open>i\<close> names.
  And what the rows written so far must look like: \<open>slicesWritten nn f done a count\<close> holds
  when every row \<open>i\<close> of \<open>done\<close> that is not null (\<open>nn\<close>) starts where the slices of the
  earlier rows that are not null end, has the size of its content \<open>f\<close>, and holds that
  content, and \<open>count\<close> is where the next slice starts.
\<close>

definition arraySlice :: "'e ArrayVector \<Rightarrow> nat \<Rightarrow> 'e list" where
  "arraySlice a i =
     map (\<lambda>k. flatValues (arrayElements a) (arrayOffsets a i + k)) [0..<arraySizes a i]"

definition sizeBefore :: "('s \<Rightarrow> bool) \<Rightarrow> ('s \<Rightarrow> 'e list) \<Rightarrow> 's list \<Rightarrow> nat" where
  "sizeBefore nn f rows = sum_list (map (\<lambda>s. length (f s)) (filter nn rows))"

definition slicesWritten ::
  "('s \<Rightarrow> bool) \<Rightarrow> ('s \<Rightarrow> 'e list) \<Rightarrow> 's list \<Rightarrow> 'e ArrayVector \<Rightarrow> nat \<Rightarrow> bool" where
  "slicesWritten nn f rows a count =
     (count = sizeBefore nn f rows \<and>
      list_all
        (\<lambda>i. \<not> nn (rows ! i) \<or>
               (arrayOffsets a i = sizeBefore nn f (take i rows) \<and>
                arraySizes a i = length (f (rows ! i)) \<and>
                arraySlice a i = f (rows ! i)))
        [0..<length rows])"

text \<open>The row vector handed to \<^verbatim>\<open>extractAccumulators\<close>, empty.\<close>

definition emptyRowVector :: "int RowVector" where
  "emptyRowVector =
     \<lparr>rowBase = \<lparr>vecSize = 0, vecNulls = None\<rparr>,
      childPercentiles = NullConstant 0,
      childPercentilesIsArray = NullConstant 0,
      childAccuracy = NullConstant 0,
      childK = \<lparr>vecSize = 0, vecNulls = None, flatValues = (\<lambda>i. 0)\<rparr>,
      childN = \<lparr>vecSize = 0, vecNulls = None, flatValues = (\<lambda>i. 0)\<rparr>,
      childMinValue = \<lparr>vecSize = 0, vecNulls = None, flatValues = (\<lambda>i. 0)\<rparr>,
      childMaxValue = \<lparr>vecSize = 0, vecNulls = None, flatValues = (\<lambda>i. 0)\<rparr>,
      childItems =
        \<lparr>vecSize = 0, vecNulls = None, arrayOffsets = (\<lambda>i. 0), arraySizes = (\<lambda>i. 0),
         arrayElements = \<lparr>vecSize = 0, vecNulls = None, flatValues = (\<lambda>i. 0)\<rparr>\<rparr>,
      childLevels =
        \<lparr>vecSize = 0, vecNulls = None, arrayOffsets = (\<lambda>i. 0), arraySizes = (\<lambda>i. 0),
         arrayElements = \<lparr>vecSize = 0, vecNulls = None, flatValues = (\<lambda>i. 0)\<rparr>\<rparr>\<rparr>"

section \<open>Weighted append\<close>

lemma insertLoop_funpow:
  "insertLoop lib v count i s = (kllInsert lib v ^^ nat (count - i)) s"
proof (induction lib v count i s rule: insertLoop.induct)
  case (1 lib v count i s)
  show ?case
  proof (cases "i < count")
    case True
    then have "nat (count - i) = Suc (nat (count - (i + 1)))" by simp
    with True "1" show ?thesis
      by (simp add: funpow_swap1 insertLoop.simps [of lib v count i s])
  next
    case False
    then show ?thesis by (simp add: insertLoop.simps [of lib v count i s])
  qed
qed


text \<open>
  Claim C6.  A weighted \<^verbatim>\<open>append(value, count)\<close> with \<open>count < 512\<close> inserts the value into
  the sketch \<open>count\<close> times (no time when \<open>count \<le> 0\<close>) and leaves the buffer alone.  With
  \<open>count \<ge> 512\<close> it appends the pair to the buffer and leaves the sketch alone, unless the
  buffer thereby holds 4096 pairs: then the buffer is flushed, that is, every pair is merged
  into the sketch as a repeated-value sketch, the sketch is finished and the buffer is empty.
\<close>

theorem append_weighted_cases:
  "append_weighted lib processSeed v count arena seed acc =
     (if sint count < 512
      then acc\<lparr>sketch := (kllInsert lib v ^^ nat (sint count)) (sketch acc)\<rparr>
      else if length (largeCountValues acc) + 1 < 4096
      then acc\<lparr>largeCountValues := largeCountValues acc @ [(v, count)]\<rparr>
      else \<lparr>sketch = finish (kllMerge lib
                (map (\<lambda>(x, n). kllFromRepeatedValue lib x n (getK (sketch acc))
                                  (StlAllocator arena) (getRandomSeed processSeed seed))
                     (largeCountValues acc @ [(v, count)]))
                (sketch acc)),
            largeCountValues = []\<rparr>)"
  by (simp add: append_weighted_def kMinCountToBuffer_def kMaxBufferSize_def flush_def
      mergeLargeCountValuesIntoSketch_def insertLoop_funpow Let_def)

section \<open>Weights on the raw-input path\<close>

lemma checkWeight_range:
  "checkWeight w =
     (if 1 \<le> sint w \<and> sint w \<le> 2 ^ 60 - 1 then Inr () else Inl (UserError WeightOutOfRange))"
  by (simp add: checkWeight_def kMaxWeight_def)

lemma weighted_row_cases:
  "addRawInputWeightedRow lib processSeed agg dv dw groups row store =
     (if isNullAt dv row \<or> isNullAt dw row then Inr store
      else if 1 \<le> sint (valueAt dw row) \<and> sint (valueAt dw row) \<le> 2 ^ 60 - 1
      then Inr (store(groups row :=
             append_weighted lib processSeed (valueAt dv row) (valueAt dw row) (allocator agg)
               (fixedRandomSeed agg) (initRawAccumulator lib agg (store (groups row)))))
      else Inl (UserError WeightOutOfRange))"
  by (simp add: addRawInputWeightedRow_def checkWeight_range Let_def)

lemma applyToSelected_error_iff:
  assumes "\<And>r s. (\<exists>e. f r s = Inl e) \<longleftrightarrow> bad r"
  shows "(\<exists>e. applyToSelected f rows s = Inl e) \<longleftrightarrow> (\<exists>r \<in> set rows. bad r)"
proof (induction rows arbitrary: s)
  case Nil
  show ?case by simp
next
  case (Cons r rows)
  show ?case
  proof (cases "f r s")
    case (Inl e)
    with assms [of r s] show ?thesis by auto
  next
    case (Inr s')
    with assms [of r s] Cons.IH [of s'] show ?thesis by auto
  qed
qed

text \<open>
  The batch as a whole: the weighted loop raises exactly when some selected row with a value
  and a weight has its weight outside the range.
\<close>

lemma weighted_loop_error:
  "(\<exists>e. applyToSelected (addRawInputWeightedRow lib processSeed agg dv dw groups) rows store = Inl e)
     \<longleftrightarrow> (\<exists>row \<in> set rows. \<not> isNullAt dv row \<and> \<not> isNullAt dw row \<and>
            \<not> (1 \<le> sint (valueAt dw row) \<and> sint (valueAt dw row) \<le> 2 ^ 60 - 1))"
  by (rule applyToSelected_error_iff) (simp add: weighted_row_cases)

text \<open>
  Claim C2.  On the weighted raw-input path, a selected row whose value and weight are both
  non-null raises the user error "weight must be in range" if and only if its weight lies
  outside \<open>[1, 2\<^sup>6\<^sup>0 - 1]\<close>; otherwise the weighted append runs on the row's group.  The
  weights 0 and \<open>2\<^sup>6\<^sup>0\<close> raise the error, the bounds 1 and \<open>2\<^sup>6\<^sup>0 - 1\<close> do not.
\<close>

theorem weight_range_checked:
  assumes "\<not> isNullAt decodedValue row" and "\<not> isNullAt decodedWeight row"
  shows "addRawInputWeightedRow lib processSeed agg decodedValue decodedWeight groups row store =
           (if 1 \<le> sint (valueAt decodedWeight row) \<and> sint (valueAt decodedWeight row) \<le> 2 ^ 60 - 1
            then Inr (store(groups row :=
                   append_weighted lib processSeed (valueAt decodedValue row)
                     (valueAt decodedWeight row) (allocator agg) (fixedRandomSeed agg)
                     (initRawAccumulator lib agg (store (groups row)))))
            else Inl (UserError WeightOutOfRange))
         \<and> checkWeight 0 = Inl (UserError WeightOutOfRange)
         \<and> checkWeight (2 ^ 60) = Inl (UserError WeightOutOfRange)
         \<and> checkWeight 1 = Inr ()
         \<and> checkWeight (2 ^ 60 - 1) = Inr ()"
  using assms
  by (simp add: addRawInputWeightedRow_def checkWeight_range Let_def)

theorem weight_range_checked_witness:
  "addRawInputWeightedRow plainLib 0 exampleAggregate exampleValues exampleWeights (\<lambda>r. 7) 0
       (\<lambda>g. emptyAccumulator) = Inl (UserError WeightOutOfRange)
   \<and> addRawInputWeightedRow plainLib 0 exampleAggregate exampleValues exampleWeights (\<lambda>r. 7) 1
       (\<lambda>g. emptyAccumulator) = Inl (UserError WeightOutOfRange)
   \<and> addRawInputWeightedRow plainLib 0 exampleAggregate exampleValues exampleWeights (\<lambda>r. 7) 4
       (\<lambda>g. emptyAccumulator) =
     Inr ((\<lambda>g. emptyAccumulator)(7 :=
       append_weighted plainLib 0 14 5 0 (Some 42)
         (initRawAccumulator plainLib exampleAggregate emptyAccumulator)))"
proof -
  have v: "\<not> isNullAt exampleValues 0" "\<not> isNullAt exampleValues 1" "\<not> isNullAt exampleValues 4"
    by (simp_all add: exampleValues_def isNullAt_def)
  have w: "\<not> isNullAt exampleWeights 0" "\<not> isNullAt exampleWeights 1" "\<not> isNullAt exampleWeights 4"
    by (simp_all add: exampleWeights_def isNullAt_def)
  have d: "valueAt exampleWeights 0 = 0" "valueAt exampleWeights (Suc 0) = 2 ^ 60"
    "valueAt exampleWeights 4 = 5" "valueAt exampleValues 4 = 14"
    "allocator exampleAggregate = 0" "fixedRandomSeed exampleAggregate = Some 42"
    by (simp_all add: exampleWeights_def exampleValues_def exampleAggregate_def valueAt_def)
  have r0: "addRawInputWeightedRow plainLib 0 exampleAggregate exampleValues exampleWeights
      (\<lambda>r. 7) 0 (\<lambda>g. emptyAccumulator) = Inl (UserError WeightOutOfRange)"
    using weight_range_checked [OF v(1) w(1), of plainLib 0 exampleAggregate "\<lambda>r. 7"
        "\<lambda>g. emptyAccumulator"]
    by (simp add: d)
  have r1: "addRawInputWeightedRow plainLib 0 exampleAggregate exampleValues exampleWeights
      (\<lambda>r. 7) 1 (\<lambda>g. emptyAccumulator) = Inl (UserError WeightOutOfRange)"
    using weight_range_checked [OF v(2) w(2), of plainLib 0 exampleAggregate "\<lambda>r. 7"
        "\<lambda>g. emptyAccumulator"]
    by (simp add: d)
  have r4: "addRawInputWeightedRow plainLib 0 exampleAggregate exampleValues exampleWeights
      (\<lambda>r. 7) 4 (\<lambda>g. emptyAccumulator) =
     Inr ((\<lambda>g. emptyAccumulator)(7 :=
       append_weighted plainLib 0 14 5 0 (Some 42)
         (initRawAccumulator plainLib exampleAggregate emptyAccumulator)))"
    using weight_range_checked [OF v(3) w(3), of plainLib 0 exampleAggregate "\<lambda>r. 7"
        "\<lambda>g. emptyAccumulator"]
    by (simp add: d)
  from r0 r1 r4 show ?thesis by (intro conjI)
qed

section \<open>Null rows on the raw-input path\<close>



section \<open>Accuracy resolution\<close>

lemma inRange_Finite:
  "dlt (Finite 0) a \<and> dle a (Finite 1) \<longleftrightarrow> (\<exists>x. a = Finite x \<and> 0 < x \<and> x \<le> 1)"
  by (cases a) auto

lemma deq_iff: "deq a b \<longleftrightarrow> a = b \<and> a \<noteq> NaN"
  by (cases a; cases b) auto

lemma checkSetAccuracyValue_cases:
  "checkSetAccuracyValue a agg =
     (if \<not> (dlt (Finite 0) a \<and> dle a (Finite 1)) then Inl (UserError AccuracyOutOfRange)
      else if accuracy agg = kMissingNormalizedValue then Inr (agg\<lparr>accuracy := a\<rparr>)
      else if a \<noteq> accuracy agg then Inl (UserError AccuracyNotConstant)
      else Inr agg)"
  by (auto simp: checkSetAccuracyValue_def deq_iff kMissingNormalizedValue_def inRange_Finite)

lemma checkSetAccuracyRow_resolved:
  assumes "accuracy agg \<noteq> kMissingNormalizedValue"
  shows "checkSetAccuracyRow d row agg =
     (if isNullAt d row then Inl (UserError AccuracyNull)
      else if \<not> deq (valueAt d row) (accuracy agg) then Inl (UserError AccuracyNotConstant)
      else Inr agg)"
  using assms
  by (auto simp: checkSetAccuracyRow_def deq_iff kMissingNormalizedValue_def Let_def)

lemma checkSetAccuracyRow_unresolved:
  assumes "accuracy agg = kMissingNormalizedValue"
  shows "checkSetAccuracyRow d row agg =
     (if isNullAt d row then Inl (UserError AccuracyNull)
      else if \<not> (dlt (Finite 0) (valueAt d row) \<and> dle (valueAt d row) (Finite 1))
      then Inl (UserError AccuracyOutOfRange)
      else Inr (agg\<lparr>accuracy := valueAt d row\<rparr>))"
  using assms
  by (auto simp: checkSetAccuracyRow_def checkSetAccuracyValue_cases deq_iff
      kMissingNormalizedValue_def Let_def inRange_Finite)

lemma accuracy_loop_resolved:
  assumes "accuracy agg \<noteq> kMissingNormalizedValue"
  shows "applyToSelected (checkSetAccuracyRow d) rows agg = Inr agg \<and>
           (\<forall>r \<in> set rows. \<not> isNullAt d r \<and> deq (valueAt d r) (accuracy agg))
         \<or> (\<exists>e. applyToSelected (checkSetAccuracyRow d) rows agg = Inl (UserError e)) \<and>
           (\<exists>r \<in> set rows. isNullAt d r \<or> \<not> deq (valueAt d r) (accuracy agg))"
proof -
  define f where "f = checkSetAccuracyRow d"
  have row: "f r agg =
     (if isNullAt d r then Inl (UserError AccuracyNull)
      else if \<not> deq (valueAt d r) (accuracy agg) then Inl (UserError AccuracyNotConstant)
      else Inr agg)" for r
    unfolding f_def using assms by (rule checkSetAccuracyRow_resolved)
  have "applyToSelected f rows agg = Inr agg \<and>
           (\<forall>r \<in> set rows. \<not> isNullAt d r \<and> deq (valueAt d r) (accuracy agg))
         \<or> (\<exists>e. applyToSelected f rows agg = Inl (UserError e)) \<and>
           (\<exists>r \<in> set rows. isNullAt d r \<or> \<not> deq (valueAt d r) (accuracy agg))"
  proof (induction rows)
    case Nil
    show ?case by simp
  next
    case (Cons r rows)
    then show ?case by (auto simp: row)
  qed
  then show ?thesis by (simp only: f_def)
qed

text \<open>
  Claim C7.  With an accuracy argument, and the member \<^verbatim>\<open>accuracy_\<close> either unset or in
  \<open>(0, 1]\<close> (it is never anything else), accuracy resolution raises a user error exactly
  when a selected accuracy is null, lies outside \<open>(0, 1]\<close> or differs from the resolved
  accuracy: the one resolved before, or else the first selected one.  The selected accuracy
  of a constant-encoded column is its constant.  It raises no other error.  When it returns,
  \<^verbatim>\<open>accuracy_\<close> is the resolved accuracy and nothing else has changed; an accuracy resolved
  before is never changed.
\<close>

theorem accuracy_resolution:
  assumes "hasAccuracy agg"
    and "accuracy agg = kMissingNormalizedValue \<or>
         (dlt (Finite 0) (accuracy agg) \<and> dle (accuracy agg) (Finite 1))"
  shows
    "(let sel = (if dvIsConstantMapping d then [0] else rows);
          resolved = (if accuracy agg = kMissingNormalizedValue then valueAt d (rowsBegin sel)
                      else accuracy agg)
      in ((\<exists>e. checkSetAccuracy d rows agg = Inl (UserError e)) \<longleftrightarrow>
            (\<exists>r \<in> set sel. isNullAt d r
                 \<or> \<not> (dlt (Finite 0) (valueAt d r) \<and> dle (valueAt d r) (Finite 1))
                 \<or> \<not> deq (valueAt d r) resolved))
         \<and> (\<forall>agg'. checkSetAccuracy d rows agg = Inr agg' \<longrightarrow>
               agg' = (if sel = [] then agg else agg\<lparr>accuracy := resolved\<rparr>)
               \<and> (accuracy agg \<noteq> kMissingNormalizedValue \<longrightarrow> agg' = agg))
         \<and> (\<forall>x. checkSetAccuracy d rows agg \<noteq> Inl (RuntimeError x)))"
proof (cases "dvIsConstantMapping d")
  case True
  with assms show ?thesis
    by (auto simp: checkSetAccuracy_def checkSetAccuracyValue_cases rowsBegin_def deq_iff
        inRange_Finite kMissingNormalizedValue_def Let_def)
next
  case nonconst: False
  show ?thesis
  proof (cases "accuracy agg = kMissingNormalizedValue")
    case False
    with assms(2) have rng: "dlt (Finite 0) (accuracy agg) \<and> dle (accuracy agg) (Finite 1)"
      by simp
    have same: "deq v (accuracy agg) \<Longrightarrow> dlt (Finite 0) v \<and> dle v (Finite 1)" for v
      using rng by (simp add: deq_iff)
    from accuracy_loop_resolved [OF False, of d rows] nonconst assms(1) False show ?thesis
      by (auto simp: checkSetAccuracy_def Let_def dest: same)
  next
    case True
    show ?thesis
    proof (cases rows)
      case Nil
      with nonconst assms(1) show ?thesis
        by (simp add: checkSetAccuracy_def Let_def)
    next
      case (Cons r rs)
      show ?thesis
      proof (cases "isNullAt d r \<or> \<not> (dlt (Finite 0) (valueAt d r) \<and> dle (valueAt d r) (Finite 1))")
        case bad: True
        with nonconst assms(1) True Cons show ?thesis
          by (auto simp: checkSetAccuracy_def Let_def checkSetAccuracyRow_unresolved rowsBegin_def)
      next
        case good: False
        define agg1 where "agg1 = agg\<lparr>accuracy := valueAt d r\<rparr>"
        from good have ne: "accuracy agg1 \<noteq> kMissingNormalizedValue"
          by (auto simp: agg1_def kMissingNormalizedValue_def inRange_Finite)
        have same: "deq v (valueAt d r) \<Longrightarrow> dlt (Finite 0) v \<and> dle v (Finite 1)" for v
          using good by (simp add: deq_iff)
        have first: "deq (valueAt d r) (valueAt d r)"
          using good by (auto simp: deq_iff inRange_Finite)
        have step: "checkSetAccuracy d rows agg = applyToSelected (checkSetAccuracyRow d) rs agg1"
          using nonconst assms(1) True Cons good
          by (simp add: checkSetAccuracy_def checkSetAccuracyRow_unresolved agg1_def)
        from accuracy_loop_resolved [OF ne, of d rs] step True Cons nonconst good first
        show ?thesis
          by (auto simp: Let_def rowsBegin_def agg1_def dest: same)
      qed
    qed
  qed
qed



theorem accuracy_resolution_witness:
  "checkSetAccuracy exampleAccuracy [0, 1, 2] exampleAggregate =
     Inr (exampleAggregate\<lparr>accuracy := Finite (1 / 4)\<rparr>)
   \<and> (\<exists>e. checkSetAccuracy exampleAccuracyRows [2, 3] exampleAggregate = Inl (UserError e))"
proof -
  have h1: "hasAccuracy exampleAggregate"
    by (simp add: exampleAggregate_def)
  have h2: "accuracy exampleAggregate = kMissingNormalizedValue \<or>
      (dlt (Finite 0) (accuracy exampleAggregate) \<and> dle (accuracy exampleAggregate) (Finite 1))"
    by (simp add: exampleAggregate_def)
  note const = accuracy_resolution [OF h1 h2, of exampleAccuracy "[0, 1, 2]"]
  note rows = accuracy_resolution [OF h1 h2, of exampleAccuracyRows "[2, 3]"]
  have ok: "\<not> (\<exists>e. checkSetAccuracy exampleAccuracy [0, 1, 2] exampleAggregate = Inl (UserError e))"
    and nr: "\<forall>x. checkSetAccuracy exampleAccuracy [0, 1, 2] exampleAggregate \<noteq> Inl (RuntimeError x)"
    and res: "\<forall>agg'. checkSetAccuracy exampleAccuracy [0, 1, 2] exampleAggregate = Inr agg' \<longrightarrow>
        agg' = exampleAggregate\<lparr>accuracy := Finite (1 / 4)\<rparr>"
    using const
    by (simp_all add: Let_def exampleAccuracy_def valueAt_def isNullAt_def rowsBegin_def h2
        exampleAggregate_def)
  have first: "checkSetAccuracy exampleAccuracy [0, 1, 2] exampleAggregate =
      Inr (exampleAggregate\<lparr>accuracy := Finite (1 / 4)\<rparr>)"
  proof (cases "checkSetAccuracy exampleAccuracy [0, 1, 2] exampleAggregate")
    case (Inl e)
    with ok nr show ?thesis by (cases e) auto
  next
    case (Inr agg')
    with res show ?thesis by simp
  qed
  have second: "\<exists>e. checkSetAccuracy exampleAccuracyRows [2, 3] exampleAggregate = Inl (UserError e)"
    using rows
    by (simp add: Let_def exampleAccuracyRows_def valueAt_def isNullAt_def rowsBegin_def
        exampleAggregate_def)
  from first second show ?thesis by (intro conjI)
qed

section \<open>Percentile resolution\<close>

text \<open>
  Claim C3 fails on the code.  The null test of \<^verbatim>\<open>checkSetPercentile\<close> reads
  \<^verbatim>\<open>percentiles.isNullAt(i)\<close> where the value is read at \<^verbatim>\<open>offset + i\<close>.  With row 0
  deselected, the column whose selected rows 1 and 2 both hold the percentile 0.5 is refused
  as null, because the unselected row 0 is; the same column is accepted once the percentile
  is resolved.  And the array \<open>[null]\<close> that starts at element 1 is accepted as a percentile,
  with the raw value under the null, because element 0 is not null.
\<close>

theorem percentile_null_test_reads_wrong_index:
  "checkSetPercentile [1, 2] maskedPercentile exampleAggregate = Inl (UserError PercentileNull)
   \<and> \<not> isNullAt (paDecoded maskedPercentile) 1 \<and> \<not> isNullAt (paDecoded maskedPercentile) 2
   \<and> valueAt (paDecoded maskedPercentile) 1 = Finite (1 / 2)
   \<and> valueAt (paDecoded maskedPercentile) 2 = Finite (1 / 2)
   \<and> checkSetPercentile [1, 2] maskedPercentile
        (exampleAggregate\<lparr>percentiles := Some \<lparr>percentileValues = [Finite (1 / 2)], isArray = False\<rparr>\<rparr>)
      = Inr (exampleAggregate\<lparr>percentiles := Some \<lparr>percentileValues = [Finite (1 / 2)], isArray = False\<rparr>\<rparr>)
   \<and> checkSetPercentile [1] nullElementPercentile exampleAggregate
      = Inr (exampleAggregate\<lparr>percentiles := Some \<lparr>percentileValues = [Finite (1 / 4)], isArray = True\<rparr>\<rparr>)"
  by (simp add: checkSetPercentile_def maskedPercentile_def nullElementPercentile_def
      exampleAggregate_def checkPercentileRow_def checkSetPercentileValues_def rowsBegin_def
      equalElementAt_def isNullAt_def valueAt_def Let_def upt_rec)

section \<open>Extracting values\<close>

lemma vecIsNullAt_setNull:
  "vecIsNullAt (vecSetNull i b v) j = (if j = i then b else vecIsNullAt v j)"
  by (auto simp: vecIsNullAt_def vecSetNull_def kNull_def split: option.splits)

lemma vecIsNullAt_clearBit:
  "j \<noteq> i \<Longrightarrow> vecIsNullAt (vecClearBit i v) j = vecIsNullAt v j"
  by (auto simp: vecIsNullAt_def vecClearBit_def split: option.splits)

lemma vecSize_setNull: "vecSize (vecSetNull i b v) = vecSize v"
  by (simp add: vecSetNull_def)

lemma vecSize_clearBit: "vecSize (vecClearBit i v) = vecSize v"
  by (simp add: vecClearBit_def)

lemma vecSize_resize: "vecSize (vecResize n v) = n"
  by (simp add: vecResize_def)

lemma finish_finished: "skIsLevelZeroSorted (finish s)"
  by (simp add: finish_def split: list.splits)

lemma finish_count: "totalCount (finish s) = totalCount s"
  by (simp add: finish_def totalCount_def split: list.splits)

lemma flush_finished:
  "skIsLevelZeroSorted (sketch (flush lib processSeed arena seed acc))
   \<and> largeCountValues (flush lib processSeed arena seed acc) = []"
  by (simp add: flush_def finish_finished)

lemma flushGroups_keeps:
  "skIsLevelZeroSorted (sketch (store g)) \<and> largeCountValues (store g) = []
   \<Longrightarrow> skIsLevelZeroSorted (sketch (flushGroups lib processSeed agg groups store g))
       \<and> largeCountValues (flushGroups lib processSeed agg groups store g) = []"
  by (induction groups arbitrary: store) (simp_all add: flush_finished)

lemma flushGroups_finished:
  "g \<in> set groups
   \<Longrightarrow> skIsLevelZeroSorted (sketch (flushGroups lib processSeed agg groups store g))
       \<and> largeCountValues (flushGroups lib processSeed agg groups store g) = []"
proof (induction groups arbitrary: store)
  case Nil
  then show ?case by simp
next
  case (Cons a groups)
  show ?case
  proof (cases "g = a")
    case True
    then show ?thesis
      using flushGroups_keeps [of "store(a := flush lib processSeed (allocator agg) (fixedRandomSeed agg) (store a))" a]
      by (simp add: flush_finished)
  next
    case False
    with Cons show ?thesis by simp
  qed
qed

lemma flushGroups_other:
  "g \<notin> set groups \<Longrightarrow> flushGroups lib processSeed agg groups store g = store g"
  by (induction groups arbitrary: store) auto

lemma flushGroups_distinct:
  "distinct groups \<Longrightarrow> g \<in> set groups
   \<Longrightarrow> flushGroups lib processSeed agg groups store g =
       flush lib processSeed (allocator agg) (fixedRandomSeed agg) (store g)"
  by (induction groups arbitrary: store) (auto simp: flushGroups_other)

lemma extractLoop_invariant:
  assumes "Inv done r"
    and null: "\<And>done g r. Inv done r \<Longrightarrow> totalCount (sketch (store g)) = 0
                 \<Longrightarrow> Inv (done @ [g]) (vecSetNull (length done) True (fst r), snd r)"
    and step: "\<And>done g r. Inv done r \<Longrightarrow> g \<in> set groups \<Longrightarrow> totalCount (sketch (store g)) \<noteq> 0
                 \<Longrightarrow> \<exists>r'. f (sketch (store g))
                            (if b then vecClearBit (length done) (fst r) else fst r, snd r)
                            (length done) = Inr r' \<and> Inv (done @ [g]) r'"
  shows "\<exists>r'. extractLoop store b f groups (length done) r = Inr r' \<and> Inv (done @ groups) r'"
  using assms(1) step
proof (induction groups arbitrary: "done" r)
  case Nil
  then show ?case by simp
next
  case (Cons g groups)
  have step': "\<And>done g r. Inv done r \<Longrightarrow> g \<in> set groups \<Longrightarrow> totalCount (sketch (store g)) \<noteq> 0
                 \<Longrightarrow> \<exists>r'. f (sketch (store g))
                            (if b then vecClearBit (length done) (fst r) else fst r, snd r)
                            (length done) = Inr r' \<and> Inv (done @ [g]) r'"
    using Cons.prems(2) by simp
  show ?case
  proof (cases "totalCount (sketch (store g)) = 0")
    case True
    from null [OF Cons.prems(1) True]
    have "Inv (done @ [g]) (vecSetNull (length done) True (fst r), snd r)" .
    from Cons.IH [OF this step'] True show ?thesis by (simp add: Let_def)
  next
    case False
    from Cons.prems(2) [OF Cons.prems(1) _ False]
    obtain r1 where r1: "f (sketch (store g))
        (if b then vecClearBit (length done) (fst r) else fst r, snd r) (length done) = Inr r1"
      "Inv (done @ [g]) r1" by auto
    from Cons.IH [OF r1(2) step'] r1(1) False show ?thesis by (simp add: Let_def)
  qed
qed


lemma copyTo_before: "x < offset \<Longrightarrow> copyTo raw offset xs x = raw x"
  by (induction xs arbitrary: raw offset) auto

lemma copyTo_at: "k < length xs \<Longrightarrow> copyTo raw offset xs (offset + k) = xs ! k"
proof (induction xs arbitrary: raw offset k)
  case Nil
  then show ?case by simp
next
  case (Cons x xs)
  show ?case
  proof (cases k)
    case 0
    then show ?thesis by (simp add: copyTo_before)
  next
    case (Suc k')
    with Cons.prems have "k' < length xs" by simp
    from Cons.IH [OF this, of "raw(offset := x)" "Suc offset"]
    have "copyTo (raw(offset := x)) (Suc offset) xs (Suc offset + k') = xs ! k'" .
    with Suc show ?thesis by simp
  qed
qed

lemma flatValues_setNull: "flatValues (vecSetNull i b v) = flatValues v"
  by (simp add: vecSetNull_def)

lemma flatValues_clearBit: "flatValues (vecClearBit i v) = flatValues v"
  by (simp add: vecClearBit_def)

lemma vecIsNullAt_flatValues: "vecIsNullAt (v\<lparr>flatValues := x\<rparr>) j = vecIsNullAt v j"
  by (simp add: vecIsNullAt_def)

lemma scalar_loop:
  assumes fin: "\<forall>g \<in> set groups. skIsLevelZeroSorted (sketch (store g))"
    and one: "length ps = 1"
  shows "\<exists>v. extractLoop store b (extractScalarValue lib ps) groups 0 (v0, ()) = Inr (v, ())
           \<and> vecSize v = vecSize v0
           \<and> (\<forall>i < length groups.
                 (vecIsNullAt v i \<longleftrightarrow> totalCount (sketch (store (groups ! i))) = 0)
                 \<and> (totalCount (sketch (store (groups ! i))) \<noteq> 0 \<longrightarrow>
                      flatValues v i = kllEstimateQuantile lib (sketch (store (groups ! i))) (last ps)))"
proof -
  define Inv where "Inv = (\<lambda>done (r :: 'a FlatVector \<times> unit).
      vecSize (fst r) = vecSize v0 \<and>
      (\<forall>i < length done.
         (vecIsNullAt (fst r) i \<longleftrightarrow> totalCount (sketch (store (done ! i))) = 0)
         \<and> (totalCount (sketch (store (done ! i))) \<noteq> 0 \<longrightarrow>
              flatValues (fst r) i = kllEstimateQuantile lib (sketch (store (done ! i))) (last ps))))"
  have init: "Inv [] (v0, ())" by (simp add: Inv_def)
  have null: "Inv (done @ [g]) (vecSetNull (length done) True (fst r), snd r)"
    if "Inv done r" "totalCount (sketch (store g)) = 0" for "done" g r
    using that
    by (auto simp: Inv_def vecSize_setNull vecIsNullAt_setNull nth_append flatValues_setNull)
  have step: "\<exists>r'. extractScalarValue lib ps (sketch (store g))
                  (if b then vecClearBit (length done) (fst r) else fst r, snd r) (length done) = Inr r'
                \<and> Inv (done @ [g]) r'"
    if "Inv done r" "g \<in> set groups" "totalCount (sketch (store g)) \<noteq> 0" for "done" g r
    using that fin one
    by (auto simp: Inv_def extractScalarValue_def estimateQuantile_def flatSet_def
        vecSize_setNull vecSize_clearBit vecIsNullAt_setNull vecIsNullAt_clearBit nth_append
        flatValues_setNull flatValues_clearBit vecIsNullAt_flatValues)
  have "\<exists>r'. extractLoop store b (extractScalarValue lib ps) groups (length ([] :: nat list))
               (v0, ()) = Inr r' \<and> Inv ([] @ groups) r'"
    by (rule extractLoop_invariant [where Inv = Inv and store = store and groups = groups])
      (blast intro: init null step)+
  then obtain r' where "extractLoop store b (extractScalarValue lib ps) groups 0 (v0, ()) = Inr r'"
    "Inv groups r'" by auto
  then show ?thesis by (cases r') (auto simp: Inv_def)
qed


lemma filter_take_Suc_le:
  assumes "j < length xs" "P (xs ! j)"
  shows "Suc (length (filter P (take j xs))) \<le> length (filter P xs)"
proof -
  have "xs = take (Suc j) xs @ drop (Suc j) xs" by simp
  then have "length (filter P xs) =
      length (filter P (take (Suc j) xs)) + length (filter P (drop (Suc j) xs))"
    by (metis filter_append length_append)
  moreover have "length (filter P (take (Suc j) xs)) = Suc (length (filter P (take j xs)))"
    using assms by (simp add: take_Suc_conv_app_nth)
  ultimately show ?thesis by simp
qed

lemma array_fields_setNull:
  "arrayOffsets (vecSetNull i b v) = arrayOffsets v"
  "arraySizes (vecSetNull i b v) = arraySizes v"
  "arrayElements (vecSetNull i b v) = arrayElements v"
  by (cases v; simp add: vecSetNull_def)+

lemma array_fields_clearBit:
  "arrayOffsets (vecClearBit i v) = arrayOffsets v"
  "arraySizes (vecClearBit i v) = arraySizes v"
  "arrayElements (vecClearBit i v) = arrayElements v"
  by (cases v; simp add: vecClearBit_def)+

lemma vecIsNullAt_array_update:
  "vecIsNullAt (setOffsetAndSize i off len v) j = vecIsNullAt v j"
  "vecIsNullAt (v\<lparr>arrayElements := e\<rparr>) j = vecIsNullAt v j"
  "vecSize (setOffsetAndSize i off len v) = vecSize v"
  "vecSize (v\<lparr>arrayElements := e\<rparr>) = vecSize v"
  by (cases v; simp add: vecIsNullAt_def setOffsetAndSize_def)+

lemma array_loop:
  assumes fin: "\<forall>g \<in> set groups. skIsLevelZeroSorted (sketch (store g))"
  shows "\<exists>v c. extractLoop store b (extractArrayValue lib ps) groups 0 (v0, 0) = Inr (v, c)
           \<and> vecSize v = vecSize v0
           \<and> (\<forall>i < length groups.
                 (vecIsNullAt v i \<longleftrightarrow> totalCount (sketch (store (groups ! i))) = 0)
                 \<and> (totalCount (sketch (store (groups ! i))) \<noteq> 0 \<longrightarrow>
                      arraySizes v i = length ps
                      \<and> arrayOffsets v i =
                          length ps * length (filter (\<lambda>g. totalCount (sketch (store g)) \<noteq> 0)
                                               (take i groups))
                      \<and> (\<forall>k < length ps.
                             flatValues (arrayElements v) (arrayOffsets v i + k) =
                             kllEstimateQuantile lib (sketch (store (groups ! i))) (ps ! k))))"
proof -
  define nn where "nn = (\<lambda>g. totalCount (sketch (store g)) \<noteq> 0)"
  define Inv where "Inv = (\<lambda>done (r :: 'a ArrayVector \<times> nat).
      vecSize (fst r) = vecSize v0 \<and> snd r = length ps * length (filter nn done) \<and>
      (\<forall>i < length done.
         (vecIsNullAt (fst r) i \<longleftrightarrow> \<not> nn (done ! i))
         \<and> (nn (done ! i) \<longrightarrow>
              arraySizes (fst r) i = length ps
              \<and> arrayOffsets (fst r) i = length ps * length (filter nn (take i done))
              \<and> (\<forall>k < length ps.
                     flatValues (arrayElements (fst r))
                       (length ps * length (filter nn (take i done)) + k) =
                     kllEstimateQuantile lib (sketch (store (done ! i))) (ps ! k)))))"
  have init: "Inv [] (v0, 0)" by (simp add: Inv_def)
  have null: "Inv (done @ [g]) (vecSetNull (length done) True (fst r), snd r)"
    if inv: "Inv done r" and tc: "totalCount (sketch (store g)) = 0" for "done" g r
  proof -
    have g: "\<not> nn g" using tc by (simp add: nn_def)
    have old: "i < length done" if "i < length (done @ [g])" "nn ((done @ [g]) ! i)" for i
      using that g by (cases "i = length done") (auto simp: nth_append)
    show ?thesis
      unfolding Inv_def
    proof (intro conjI allI impI)
      show "vecSize (fst (vecSetNull (length done) True (fst r), snd r)) = vecSize v0"
        using inv by (simp add: Inv_def vecSize_setNull)
      show "snd (vecSetNull (length done) True (fst r), snd r) =
          length ps * length (filter nn (done @ [g]))"
        using inv g by (simp add: Inv_def)
    next
      fix i assume "i < length (done @ [g])"
      then show "vecIsNullAt (fst (vecSetNull (length done) True (fst r), snd r)) i =
          (\<not> nn ((done @ [g]) ! i))"
        using inv g by (auto simp: Inv_def vecIsNullAt_setNull nth_append)
    next
      fix i assume i: "i < length (done @ [g])" and n: "nn ((done @ [g]) ! i)"
      from old [OF i n] have i': "i < length done" .
      with n have n': "nn (done ! i)" by (simp add: nth_append)
      show "arraySizes (fst (vecSetNull (length done) True (fst r), snd r)) i = length ps"
        using inv i' n' by (simp add: Inv_def array_fields_setNull)
      show "arrayOffsets (fst (vecSetNull (length done) True (fst r), snd r)) i =
          length ps * length (filter nn (take i (done @ [g])))"
        using inv i' n' by (simp add: Inv_def array_fields_setNull)
    next
      fix i k assume i: "i < length (done @ [g])" and n: "nn ((done @ [g]) ! i)"
        and k: "k < length ps"
      from old [OF i n] have i': "i < length done" .
      with n have n': "nn (done ! i)" by (simp add: nth_append)
      from inv i' n' k
      have "flatValues (arrayElements (fst r)) (length ps * length (filter nn (take i done)) + k) =
          kllEstimateQuantile lib (sketch (store (done ! i))) (ps ! k)"
        by (simp add: Inv_def)
      with i' show "flatValues (arrayElements (fst (vecSetNull (length done) True (fst r), snd r)))
           (length ps * length (filter nn (take i (done @ [g]))) + k) =
          kllEstimateQuantile lib (sketch (store ((done @ [g]) ! i))) (ps ! k)"
        by (simp add: array_fields_setNull nth_append)
    qed
  qed
  have step: "\<exists>r'. extractArrayValue lib ps (sketch (store g))
                  (if b then vecClearBit (length done) (fst r) else fst r, snd r) (length done) = Inr r'
                \<and> Inv (done @ [g]) r'"
    if inv: "Inv done r" and g: "g \<in> set groups" and tc: "totalCount (sketch (store g)) \<noteq> 0"
    for "done" g r
  proof -
    define r0 where "r0 = (if b then vecClearBit (length done) (fst r) else fst r)"
    define qs where "qs = map (kllEstimateQuantile lib (sketch (store g))) ps"
    define els where "els = (arrayElements r0)
        \<lparr>flatValues := copyTo (flatValues (arrayElements r0)) (snd r) qs\<rparr>"
    define r' where "r' = (vecSetNull (length done) False
        (setOffsetAndSize (length done) (snd r) (length ps) (r0\<lparr>arrayElements := els\<rparr>)),
        snd r + length ps)"
    from g fin have "skIsLevelZeroSorted (sketch (store g))" by simp
    then have run: "extractArrayValue lib ps (sketch (store g)) (r0, snd r) (length done) = Inr r'"
      by (simp add: extractArrayValue_def estimateQuantiles_def Let_def r'_def els_def qs_def)
    have r0: "arrayOffsets r0 = arrayOffsets (fst r)" "arraySizes r0 = arraySizes (fst r)"
      "arrayElements r0 = arrayElements (fst r)" "vecSize r0 = vecSize (fst r)"
      "\<And>j. j \<noteq> length done \<Longrightarrow> vecIsNullAt r0 j = vecIsNullAt (fst r) j"
      by (simp_all add: r0_def array_fields_clearBit vecSize_clearBit vecIsNullAt_clearBit)
    have nulls: "vecIsNullAt (fst r') j = (j \<noteq> length done \<and> vecIsNullAt (fst r) j)" for j
      using r0(5) [of j]
      by (auto simp: r'_def vecIsNullAt_setNull vecIsNullAt_array_update)
    have flds: "arrayOffsets (fst r') = (arrayOffsets (fst r))(length done := snd r)"
      "arraySizes (fst r') = (arraySizes (fst r))(length done := length ps)"
      "flatValues (arrayElements (fst r')) = copyTo (flatValues (arrayElements (fst r))) (snd r) qs"
      "vecSize (fst r') = vecSize (fst r)" "snd r' = snd r + length ps"
      by (simp_all add: r'_def array_fields_setNull setOffsetAndSize_def els_def r0
          vecSize_setNull vecIsNullAt_array_update)
    have cnt: "snd r = length ps * length (filter nn done)"
      using inv by (simp add: Inv_def)
    have old: "flatValues (arrayElements (fst r'))
          (length ps * length (filter nn (take i done)) + k) =
        flatValues (arrayElements (fst r)) (length ps * length (filter nn (take i done)) + k)"
      if "i < length done" "nn (done ! i)" "k < length ps" for i k
    proof -
      from filter_take_Suc_le [OF that(1), of nn] that(2)
      have "Suc (length (filter nn (take i done))) \<le> length (filter nn done)" by simp
      then have "length ps * Suc (length (filter nn (take i done))) \<le> snd r"
        unfolding cnt by (rule mult_le_mono2)
      with that(3) have "length ps * length (filter nn (take i done)) + k < snd r" by simp
      then show ?thesis by (simp add: flds copyTo_before)
    qed
    have new: "flatValues (arrayElements (fst r')) (snd r + k) =
        kllEstimateQuantile lib (sketch (store g)) (ps ! k)" if "k < length ps" for k
      using that copyTo_at [of k qs "flatValues (arrayElements (fst r))" "snd r"]
      by (simp add: flds qs_def)
    have "Inv (done @ [g]) r'"
      unfolding Inv_def
    proof (intro conjI allI impI)
      show "vecSize (fst r') = vecSize v0" using inv by (simp add: flds Inv_def)
      show "snd r' = length ps * length (filter nn (done @ [g]))"
        using tc by (simp add: flds cnt nn_def)
    next
      fix i assume i: "i < length (done @ [g])"
      show "vecIsNullAt (fst r') i = (\<not> nn ((done @ [g]) ! i))"
        using i inv tc by (auto simp: nulls nth_append Inv_def nn_def)
    next
      fix i assume i: "i < length (done @ [g])" and n: "nn ((done @ [g]) ! i)"
      show "arraySizes (fst r') i = length ps"
        using i n inv by (auto simp: flds nth_append Inv_def)
      show "arrayOffsets (fst r') i = length ps * length (filter nn (take i (done @ [g])))"
        using i n inv by (auto simp: flds nth_append Inv_def cnt)
    next
      fix i k assume i: "i < length (done @ [g])" and n: "nn ((done @ [g]) ! i)"
        and k: "k < length ps"
      show "flatValues (arrayElements (fst r'))
            (length ps * length (filter nn (take i (done @ [g]))) + k) =
          kllEstimateQuantile lib (sketch (store ((done @ [g]) ! i))) (ps ! k)"
      proof (cases "i < length done")
        case True
        with n have n': "nn (done ! i)" by (simp add: nth_append)
        from inv True n' k
        have "flatValues (arrayElements (fst r))
            (length ps * length (filter nn (take i done)) + k) =
          kllEstimateQuantile lib (sketch (store (done ! i))) (ps ! k)"
          by (simp add: Inv_def)
        with old [OF True n' k] True show ?thesis
          by (simp add: nth_append)
      next
        case False
        with i have "i = length done" by simp
        with new [OF k] show ?thesis by (simp add: cnt)
      qed
    qed
    with run show ?thesis by (auto simp: r0_def)
  qed
  have "\<exists>r'. extractLoop store b (extractArrayValue lib ps) groups (length ([] :: nat list))
               (v0, 0) = Inr r' \<and> Inv ([] @ groups) r'"
    by (rule extractLoop_invariant [where Inv = Inv and store = store and groups = groups])
      (blast intro: init null step)+
  then obtain r' where "extractLoop store b (extractArrayValue lib ps) groups 0 (v0, 0) = Inr r'"
    "Inv groups r'" by auto
  then show ?thesis by (cases r') (auto simp: Inv_def nn_def)
qed


lemma extractValues_rows:
  assumes some: "percentiles agg = Some p" and m: "resultMatches agg result"
  shows "\<exists>res. extractValues lib processSeed agg groups store result =
                 Inr (flushGroups lib processSeed agg groups store, res)
           \<and> resultSize res = length groups
           \<and> (\<forall>i < length groups.
                 (resultIsNullAt res i \<longleftrightarrow>
                    totalCount (sketch (flushGroups lib processSeed agg groups store (groups ! i))) = 0)
                 \<and> (totalCount (sketch (flushGroups lib processSeed agg groups store (groups ! i))) \<noteq> 0
                      \<longrightarrow> resultValuesAt res i =
                          map (kllEstimateQuantile lib
                                 (sketch (flushGroups lib processSeed agg groups store (groups ! i))))
                              (percentileValues p)))"
proof -
  define store' where "store' = flushGroups lib processSeed agg groups store"
  have fin: "\<forall>g \<in> set groups. skIsLevelZeroSorted (sketch (store' g))"
    by (simp add: store'_def flushGroups_finished)
  show ?thesis
  proof (cases "isArray p")
    case True
    with some m obtain v where v: "result = ArrayResult v"
      by (cases result) (simp_all add: resultMatches_def)
    define ps where "ps = percentileValues p"
    define v0 where "v0 = vecResize (length groups)
        (v\<lparr>arrayElements := vecResize (countElements store' (length ps) groups 0) (arrayElements v)\<rparr>)"
    from array_loop [OF fin, of "vecMayHaveNulls v0" lib ps v0]
    obtain w c where w: "extractLoop store' (vecMayHaveNulls v0) (extractArrayValue lib ps) groups 0
        (v0, 0) = Inr (w, c)" "vecSize w = vecSize v0"
      and rows: "\<forall>i < length groups.
                 (vecIsNullAt w i \<longleftrightarrow> totalCount (sketch (store' (groups ! i))) = 0)
                 \<and> (totalCount (sketch (store' (groups ! i))) \<noteq> 0 \<longrightarrow>
                      arraySizes w i = length ps
                      \<and> arrayOffsets w i =
                          length ps * length (filter (\<lambda>g. totalCount (sketch (store' g)) \<noteq> 0)
                                               (take i groups))
                      \<and> (\<forall>k < length ps.
                             flatValues (arrayElements w) (arrayOffsets w i + k) =
                             kllEstimateQuantile lib (sketch (store' (groups ! i))) (ps ! k)))"
      by blast
    have run: "extractValues lib processSeed agg groups store result = Inr (store', ArrayResult w)"
      using some True v w(1)
      by (simp add: extractValues_def extractGroups_def Let_def store'_def [symmetric]
          ps_def [symmetric] v0_def [symmetric])
    have vals: "resultValuesAt (ArrayResult w) i =
        map (kllEstimateQuantile lib (sketch (store' (groups ! i)))) ps"
      if "i < length groups" "totalCount (sketch (store' (groups ! i))) \<noteq> 0" for i
      using rows that by (auto intro!: nth_equalityI)
    from run w(2) rows vals show ?thesis
      by (auto simp: store'_def [symmetric] ps_def [symmetric] v0_def vecSize_resize)
  next
    case False
    with some m obtain v where v: "result = FlatResult v" and one: "length (percentileValues p) = 1"
      by (cases result) (simp_all add: resultMatches_def)
    define ps where "ps = percentileValues p"
    define v0 where "v0 = vecResize (length groups) v"
    from one have ps1: "length ps = 1" by (simp add: ps_def)
    from scalar_loop [OF fin ps1, of "vecMayHaveNulls v0" lib v0]
    obtain w where w: "extractLoop store' (vecMayHaveNulls v0) (extractScalarValue lib ps) groups 0
        (v0, ()) = Inr (w, ())" "vecSize w = vecSize v0"
      and rows: "\<forall>i < length groups.
                 (vecIsNullAt w i \<longleftrightarrow> totalCount (sketch (store' (groups ! i))) = 0)
                 \<and> (totalCount (sketch (store' (groups ! i))) \<noteq> 0 \<longrightarrow>
                      flatValues w i = kllEstimateQuantile lib (sketch (store' (groups ! i))) (last ps))"
      by blast
    have run: "extractValues lib processSeed agg groups store result = Inr (store', FlatResult w)"
      using some False v w(1)
      by (simp add: extractValues_def extractGroups_def Let_def store'_def [symmetric]
          ps_def [symmetric] v0_def [symmetric])
    from ps1 obtain x where x: "ps = [x]" by (cases ps) auto
    from run w(2) rows x show ?thesis
      by (auto simp: store'_def [symmetric] ps_def [symmetric] v0_def vecSize_resize)
  qed
qed


text \<open>
  Claim C4.  Let the result vector be of the class of the signature's result type.  When the
  percentiles were never resolved, \<^verbatim>\<open>extractValues\<close> returns a null constant of
  \<open>numGroups\<close> rows.  Otherwise it returns a vector of \<open>numGroups\<close> rows in which row
  \<open>i\<close> is null exactly when the flushed sketch of group \<open>i\<close> has total count 0, and
  in which a row that is not null holds the library's estimates of that sketch for the
  resolved percentiles, in their order.
\<close>

theorem extractValues_null_rows:
  assumes "resultMatches agg result"
  shows "(percentiles agg = None \<longrightarrow>
            extractValues lib processSeed agg groups store result =
              Inr (flushGroups lib processSeed agg groups store,
                   NullConstantResult (length groups)))
         \<and> (\<forall>p. percentiles agg = Some p \<longrightarrow>
              (\<exists>res. extractValues lib processSeed agg groups store result =
                       Inr (flushGroups lib processSeed agg groups store, res)
                 \<and> resultSize res = length groups
                 \<and> (\<forall>i < length groups.
                       (resultIsNullAt res i \<longleftrightarrow>
                          totalCount (sketch (flushGroups lib processSeed agg groups store
                                                (groups ! i))) = 0)
                       \<and> (totalCount (sketch (flushGroups lib processSeed agg groups store
                                                 (groups ! i))) \<noteq> 0
                            \<longrightarrow> resultValuesAt res i =
                                map (kllEstimateQuantile lib
                                       (sketch (flushGroups lib processSeed agg groups store
                                                  (groups ! i))))
                                    (percentileValues p)))))"
proof (intro conjI allI impI)
  assume "percentiles agg = None"
  then show "extractValues lib processSeed agg groups store result =
      Inr (flushGroups lib processSeed agg groups store, NullConstantResult (length groups))"
    by (simp add: extractValues_def)
next
  fix p assume "percentiles agg = Some p"
  from extractValues_rows [OF this assms]
  show "\<exists>res. extractValues lib processSeed agg groups store result =
                       Inr (flushGroups lib processSeed agg groups store, res)
                 \<and> resultSize res = length groups
                 \<and> (\<forall>i < length groups.
                       (resultIsNullAt res i \<longleftrightarrow>
                          totalCount (sketch (flushGroups lib processSeed agg groups store
                                                (groups ! i))) = 0)
                       \<and> (totalCount (sketch (flushGroups lib processSeed agg groups store
                                                 (groups ! i))) \<noteq> 0
                            \<longrightarrow> resultValuesAt res i =
                                map (kllEstimateQuantile lib
                                       (sketch (flushGroups lib processSeed agg groups store
                                                  (groups ! i))))
                                    (percentileValues p)))" .
qed

theorem extractValues_null_rows_witness:
  "(\<exists>res. extractValues plainLib 0 scalarAggregate [0, 1] exampleGroups emptyFlatResult =
            Inr (flushGroups plainLib 0 scalarAggregate [0, 1] exampleGroups, res)
      \<and> resultSize res = 2 \<and> \<not> resultIsNullAt res 0 \<and> resultIsNullAt res 1
      \<and> resultValuesAt res 0 = [7])
   \<and> (\<exists>res. extractValues plainLib 0 arrayAggregate [0, 1] exampleGroups emptyArrayResult =
            Inr (flushGroups plainLib 0 arrayAggregate [0, 1] exampleGroups, res)
      \<and> resultSize res = 2 \<and> \<not> resultIsNullAt res 0 \<and> resultIsNullAt res 1
      \<and> resultValuesAt res 0 = [3, 7, 7])
   \<and> extractValues plainLib 0 exampleAggregate [0, 1] exampleGroups emptyFlatResult =
       Inr (flushGroups plainLib 0 exampleAggregate [0, 1] exampleGroups, NullConstantResult 2)"
proof -
  have m: "resultMatches scalarAggregate emptyFlatResult"
    "resultMatches arrayAggregate emptyArrayResult"
    "resultMatches exampleAggregate emptyFlatResult"
    by (simp_all add: resultMatches_def scalarAggregate_def arrayAggregate_def
        exampleAggregate_def emptyFlatResult_def emptyArrayResult_def)
  have p: "percentiles scalarAggregate = Some \<lparr>percentileValues = [Finite (1 / 2)], isArray = False\<rparr>"
    "percentiles arrayAggregate =
       Some \<lparr>percentileValues = [Finite 0, Finite (1 / 2), Finite 1], isArray = True\<rparr>"
    "percentiles exampleAggregate = None"
    by (simp_all add: scalarAggregate_def arrayAggregate_def exampleAggregate_def)
  have s: "totalCount (sketch (flushGroups plainLib 0 scalarAggregate [0, 1] exampleGroups 0)) = 602"
    "totalCount (sketch (flushGroups plainLib 0 scalarAggregate [0, 1] exampleGroups 1)) = 0"
    "kllEstimateQuantile plainLib
       (sketch (flushGroups plainLib 0 scalarAggregate [0, 1] exampleGroups 0)) (Finite (1 / 2)) = 7"
    by code_simp+
  have a: "totalCount (sketch (flushGroups plainLib 0 arrayAggregate [0, 1] exampleGroups 0)) = 602"
    "totalCount (sketch (flushGroups plainLib 0 arrayAggregate [0, 1] exampleGroups 1)) = 0"
    "map (kllEstimateQuantile plainLib
            (sketch (flushGroups plainLib 0 arrayAggregate [0, 1] exampleGroups 0)))
       [Finite 0, Finite (1 / 2), Finite 1] = [3, 7, 7]"
    by code_simp+
  from extractValues_null_rows [OF m(1), of plainLib 0 "[0, 1]" exampleGroups] p(1)
  obtain res where res: "extractValues plainLib 0 scalarAggregate [0, 1] exampleGroups emptyFlatResult =
      Inr (flushGroups plainLib 0 scalarAggregate [0, 1] exampleGroups, res)"
    "resultSize res = length [0 :: nat, 1]"
    "\<forall>i < length [0 :: nat, 1].
       (resultIsNullAt res i \<longleftrightarrow>
          totalCount (sketch (flushGroups plainLib 0 scalarAggregate [0, 1] exampleGroups
                                ([0, 1] ! i))) = 0)
       \<and> (totalCount (sketch (flushGroups plainLib 0 scalarAggregate [0, 1] exampleGroups
                                 ([0, 1] ! i))) \<noteq> 0
            \<longrightarrow> resultValuesAt res i =
                map (kllEstimateQuantile plainLib
                       (sketch (flushGroups plainLib 0 scalarAggregate [0, 1] exampleGroups
                                  ([0, 1] ! i))))
                    (percentileValues \<lparr>percentileValues = [Finite (1 / 2)], isArray = False\<rparr>))"
    by blast
  from res(3) [rule_format, of 0] res(3) [rule_format, of 1] s
  have r: "\<not> resultIsNullAt res 0" "resultIsNullAt res 1" "resultValuesAt res 0 = [7]"
    by simp_all
  from extractValues_null_rows [OF m(2), of plainLib 0 "[0, 1]" exampleGroups] p(2)
  obtain res' where res': "extractValues plainLib 0 arrayAggregate [0, 1] exampleGroups emptyArrayResult =
      Inr (flushGroups plainLib 0 arrayAggregate [0, 1] exampleGroups, res')"
    "resultSize res' = length [0 :: nat, 1]"
    "\<forall>i < length [0 :: nat, 1].
       (resultIsNullAt res' i \<longleftrightarrow>
          totalCount (sketch (flushGroups plainLib 0 arrayAggregate [0, 1] exampleGroups
                                ([0, 1] ! i))) = 0)
       \<and> (totalCount (sketch (flushGroups plainLib 0 arrayAggregate [0, 1] exampleGroups
                                 ([0, 1] ! i))) \<noteq> 0
            \<longrightarrow> resultValuesAt res' i =
                map (kllEstimateQuantile plainLib
                       (sketch (flushGroups plainLib 0 arrayAggregate [0, 1] exampleGroups
                                  ([0, 1] ! i))))
                    (percentileValues
                       \<lparr>percentileValues = [Finite 0, Finite (1 / 2), Finite 1], isArray = True\<rparr>))"
    by blast
  from res'(3) [rule_format, of 0] res'(3) [rule_format, of 1] a
  have r': "\<not> resultIsNullAt res' 0" "resultIsNullAt res' 1" "resultValuesAt res' 0 = [3, 7, 7]"
    by simp_all
  from extractValues_null_rows [OF m(3), of plainLib 0 "[0, 1]" exampleGroups] p(3)
  have n: "extractValues plainLib 0 exampleAggregate [0, 1] exampleGroups emptyFlatResult =
       Inr (flushGroups plainLib 0 exampleAggregate [0, 1] exampleGroups, NullConstantResult 2)"
    by simp
  from res(1,2) r res'(1,2) r' n show ?thesis by auto
qed

text \<open>
  Claim C9.  \<^verbatim>\<open>extractValues\<close> flushes the accumulator of every group before it estimates
  anything: it returns with the groups the flushing loop leaves, in which the sketch of every
  group of the batch is finished and its buffer empty, whether the group's output is null or
  not (with distinct groups, each accumulator is the flush of what it was).  An estimate on an
  unfinished sketch is an error of the library, and \<^verbatim>\<open>extractValues\<close> raises none.
\<close>

theorem extractValues_flushes_first:
  assumes "resultMatches agg result"
  shows "(\<exists>res. extractValues lib processSeed agg groups store result =
                  Inr (flushGroups lib processSeed agg groups store, res))
         \<and> (\<forall>g \<in> set groups.
               skIsLevelZeroSorted (sketch (flushGroups lib processSeed agg groups store g))
               \<and> largeCountValues (flushGroups lib processSeed agg groups store g) = [])
         \<and> (distinct groups \<longrightarrow>
               (\<forall>g \<in> set groups.
                  flushGroups lib processSeed agg groups store g =
                    flush lib processSeed (allocator agg) (fixedRandomSeed agg) (store g)))
         \<and> (\<forall>s p ps. \<not> skIsLevelZeroSorted s \<longrightarrow>
               estimateQuantile lib s p = Inl (RuntimeError QueryOnUnfinishedSketch)
               \<and> estimateQuantiles lib s ps = Inl (RuntimeError QueryOnUnfinishedSketch))"
proof (intro conjI)
  show "\<exists>res. extractValues lib processSeed agg groups store result =
                  Inr (flushGroups lib processSeed agg groups store, res)"
  proof (cases "percentiles agg")
    case None
    then show ?thesis by (simp add: extractValues_def)
  next
    case (Some p)
    from extractValues_rows [OF Some assms, of lib processSeed groups store]
    show ?thesis by blast
  qed
  show "\<forall>g \<in> set groups.
               skIsLevelZeroSorted (sketch (flushGroups lib processSeed agg groups store g))
               \<and> largeCountValues (flushGroups lib processSeed agg groups store g) = []"
    by (simp add: flushGroups_finished)
  show "distinct groups \<longrightarrow>
               (\<forall>g \<in> set groups.
                  flushGroups lib processSeed agg groups store g =
                    flush lib processSeed (allocator agg) (fixedRandomSeed agg) (store g))"
    by (simp add: flushGroups_distinct)
  show "\<forall>s p ps. \<not> skIsLevelZeroSorted s \<longrightarrow>
               estimateQuantile lib s p = Inl (RuntimeError QueryOnUnfinishedSketch)
               \<and> estimateQuantiles lib s ps = Inl (RuntimeError QueryOnUnfinishedSketch)"
    by (simp add: estimateQuantile_def estimateQuantiles_def)
qed

theorem extractValues_flushes_first_witness:
  "(\<exists>res. extractValues plainLib 0 scalarAggregate [0, 1] exampleGroups emptyFlatResult =
            Inr (flushGroups plainLib 0 scalarAggregate [0, 1] exampleGroups, res))
   \<and> \<not> skIsLevelZeroSorted (sketch (exampleGroups 0))
   \<and> largeCountValues (exampleGroups 0) = [(7, 600)]
   \<and> skIsLevelZeroSorted (sketch (flushGroups plainLib 0 scalarAggregate [0, 1] exampleGroups 0))
   \<and> largeCountValues (flushGroups plainLib 0 scalarAggregate [0, 1] exampleGroups 0) = []
   \<and> skIsLevelZeroSorted (sketch (flushGroups plainLib 0 scalarAggregate [0, 1] exampleGroups 1))
   \<and> totalCount (sketch (flushGroups plainLib 0 scalarAggregate [0, 1] exampleGroups 1)) = 0"
proof -
  have m: "resultMatches scalarAggregate emptyFlatResult"
    by (simp add: resultMatches_def scalarAggregate_def exampleAggregate_def emptyFlatResult_def)
  note t = extractValues_flushes_first [OF m, of plainLib 0 "[0, 1]" exampleGroups]
  have before: "\<not> skIsLevelZeroSorted (sketch (exampleGroups 0))"
    "largeCountValues (exampleGroups 0) = [(7, 600)]"
    "totalCount (sketch (flushGroups plainLib 0 scalarAggregate [0, 1] exampleGroups 1)) = 0"
    by code_simp+
  from t [THEN conjunct1] t [THEN conjunct2, THEN conjunct1] before show ?thesis by simp
qed

section \<open>The copy made for spilling\<close>

text \<open>
  Claim C1, as amended.  \<^verbatim>\<open>compact\<close> leaves the accumulator as it was and returns a sketch
  of the heap allocator: the copy of the sketch's view, into which the buffered pairs, if
  any, are merged as repeated-value sketches of the heap allocator with the sketch's \<open>k\<close>,
  and which is then compacted.  The copy is not finished on the way.
\<close>

theorem compact_acc_copy:
  "compact_acc lib processSeed seed acc =
     (kllCompact lib
        (if largeCountValues acc = []
         then \<lparr>skK = skK (sketch acc), skN = skN (sketch acc),
               skMinValue = skMinValue (sketch acc), skMaxValue = skMaxValue (sketch acc),
               skItems = skItems (sketch acc), skLevels = skLevels (sketch acc),
               skIsLevelZeroSorted = sorted (levelZero (skItems (sketch acc)) (skLevels (sketch acc))),
               skAllocator = StdAllocator, skSeed = getRandomSeed processSeed seed\<rparr>
         else kllMerge lib
                (map (\<lambda>(x, n). kllFromRepeatedValue lib x n (skK (sketch acc)) StdAllocator
                                  (getRandomSeed processSeed seed))
                     (largeCountValues acc))
                \<lparr>skK = skK (sketch acc), skN = skN (sketch acc),
                 skMinValue = skMinValue (sketch acc), skMaxValue = skMaxValue (sketch acc),
                 skItems = skItems (sketch acc), skLevels = skLevels (sketch acc),
                 skIsLevelZeroSorted =
                   sorted (levelZero (skItems (sketch acc)) (skLevels (sketch acc))),
                 skAllocator = StdAllocator, skSeed = getRandomSeed processSeed seed\<rparr>),
      acc)"
  by (simp add: compact_acc_def mergeLargeCountValuesIntoSketch_def fromView_def toView_def
      getK_def Let_def)

text \<open>
  Claim C1 as stated fails.  After the values 5 and 3 were appended, the sketch that
  \<^verbatim>\<open>compact\<close> returns has the level 0 \<open>[5, 3]\<close> and is not finished; finishing the merged
  copy before compacting it, as the claim has it, gives another sketch, with the level 0
  \<open>[3, 5]\<close>.
\<close>

theorem compact_acc_not_finished:
  "skItems (fst (compact_acc plainLib 0 (Some 42)
             (append_one plainLib 3 (append_one plainLib 5 emptyAccumulator)))) = [5, 3]
   \<and> skLevels (fst (compact_acc plainLib 0 (Some 42)
             (append_one plainLib 3 (append_one plainLib 5 emptyAccumulator)))) = [0, 2]
   \<and> \<not> skIsLevelZeroSorted (fst (compact_acc plainLib 0 (Some 42)
             (append_one plainLib 3 (append_one plainLib 5 emptyAccumulator))))
   \<and> skItems (kllCompact plainLib (finish
         (mergeLargeCountValuesIntoSketch plainLib 0 StdAllocator
            (fromView (toView (sketch (append_one plainLib 3 (append_one plainLib 5 emptyAccumulator))))
               StdAllocator (getRandomSeed 0 (Some 42)))
            (Some 42) (append_one plainLib 3 (append_one plainLib 5 emptyAccumulator))))) = [3, 5]
   \<and> fst (compact_acc plainLib 0 (Some 42)
             (append_one plainLib 3 (append_one plainLib 5 emptyAccumulator))) \<noteq>
       kllCompact plainLib (finish
         (mergeLargeCountValuesIntoSketch plainLib 0 StdAllocator
            (fromView (toView (sketch (append_one plainLib 3 (append_one plainLib 5 emptyAccumulator))))
               StdAllocator (getRandomSeed 0 (Some 42)))
            (Some 42) (append_one plainLib 3 (append_one plainLib 5 emptyAccumulator))))"
  by code_simp

section \<open>Extracting accumulators\<close>

lemma compact_acc_unchanged: "snd (compact_acc lib processSeed seed acc) = acc"
  by (simp add: compact_acc_def Let_def)

lemma compactGroups_result:
  "compactGroups lib processSeed agg groups store =
     (map (\<lambda>g. fst (compact_acc lib processSeed (fixedRandomSeed agg) (store g))) groups, store)"
proof (induction groups arbitrary: store)
  case Nil
  show ?case by simp
next
  case (Cons g groups)
  have "store(g := snd (compact_acc lib processSeed (fixedRandomSeed agg) (store g))) = store"
    by (simp add: compact_acc_unchanged)
  with Cons.IH [of store] show ?case
    by (simp add: split_beta Let_def del: fun_upd_apply)
qed

lemma sizeBefore_snoc:
  "sizeBefore nn f (rows @ [s]) = sizeBefore nn f rows + (if nn s then length (f s) else 0)"
  by (simp add: sizeBefore_def)

lemma sizeBefore_take_le:
  assumes "i < length rows" "nn (rows ! i)"
  shows "sizeBefore nn f (take i rows) + length (f (rows ! i)) \<le> sizeBefore nn f rows"
proof -
  have "rows = take i rows @ [rows ! i] @ drop (Suc i) rows"
    using assms(1) by (simp add: Cons_nth_drop_Suc)
  then have "sizeBefore nn f rows =
      sizeBefore nn f (take i rows @ [rows ! i] @ drop (Suc i) rows)" by simp
  also have "\<dots> = sizeBefore nn f (take i rows) + length (f (rows ! i))
      + sizeBefore nn f (drop (Suc i) rows)"
    using assms(2) by (simp add: sizeBefore_def)
  finally show ?thesis by simp
qed

lemma arraySlice_eq:
  "arraySlice a i = xs \<longleftrightarrow>
     arraySizes a i = length xs \<and>
     (\<forall>k < length xs. flatValues (arrayElements a) (arrayOffsets a i + k) = xs ! k)"
  by (auto simp: arraySlice_def list_eq_iff_nth_eq)

lemma writeSlice_fields:
  "arrayOffsets (writeSlice i c xs a) = (arrayOffsets a)(i := c)"
  "arraySizes (writeSlice i c xs a) = (arraySizes a)(i := length xs)"
  "flatValues (arrayElements (writeSlice i c xs a)) = copyTo (flatValues (arrayElements a)) c xs"
  "vecSize (arrayElements (writeSlice i c xs a)) = vecSize (arrayElements a)"
  "vecSize (writeSlice i c xs a) = vecSize a"
  by (cases a; simp add: writeSlice_def setOffsetAndSize_def)+


lemma slicesWritten_iff:
  "slicesWritten nn f rows a c \<longleftrightarrow>
     c = sizeBefore nn f rows \<and>
     (\<forall>i < length rows. nn (rows ! i) \<longrightarrow>
        arrayOffsets a i = sizeBefore nn f (take i rows) \<and>
        arraySizes a i = length (f (rows ! i)) \<and>
        (\<forall>k < length (f (rows ! i)).
           flatValues (arrayElements a) (sizeBefore nn f (take i rows) + k) = f (rows ! i) ! k))"
  by (auto simp: slicesWritten_def list_all_iff arraySlice_eq)

lemma slicesWritten_null:
  assumes "slicesWritten nn f rows a c" "\<not> nn s"
  shows "slicesWritten nn f (rows @ [s]) a c"
  unfolding slicesWritten_iff
proof (intro conjI allI impI)
  show "c = sizeBefore nn f (rows @ [s])"
    using assms by (simp add: slicesWritten_iff sizeBefore_snoc)
next
  fix i assume i: "i < length (rows @ [s])" and n: "nn ((rows @ [s]) ! i)"
  from i n assms(2) have i': "i < length rows" by (cases "i = length rows") auto
  with n have n': "nn (rows ! i)" by (simp add: nth_append)
  from assms(1) i' n' show "arrayOffsets a i = sizeBefore nn f (take i (rows @ [s]))"
    "arraySizes a i = length (f ((rows @ [s]) ! i))"
    by (simp_all add: slicesWritten_iff nth_append)
  fix k assume "k < length (f ((rows @ [s]) ! i))"
  with assms(1) i' n'
  show "flatValues (arrayElements a) (sizeBefore nn f (take i (rows @ [s])) + k) =
      f ((rows @ [s]) ! i) ! k"
    by (simp add: slicesWritten_iff nth_append)
qed

lemma slicesWritten_write:
  assumes w: "slicesWritten nn f rows a c" and s: "nn s"
  shows "slicesWritten nn f (rows @ [s]) (writeSlice (length rows) c (f s) a) (c + length (f s))"
  unfolding slicesWritten_iff
proof (intro conjI allI impI)
  have c: "c = sizeBefore nn f rows" using w by (simp add: slicesWritten_iff)
  show "c + length (f s) = sizeBefore nn f (rows @ [s])"
    using s by (simp add: c sizeBefore_snoc)
  fix i assume i: "i < length (rows @ [s])" and n: "nn ((rows @ [s]) ! i)"
  show "arrayOffsets (writeSlice (length rows) c (f s) a) i = sizeBefore nn f (take i (rows @ [s]))"
    using i n w by (auto simp: writeSlice_fields slicesWritten_iff nth_append)
  show "arraySizes (writeSlice (length rows) c (f s) a) i = length (f ((rows @ [s]) ! i))"
    using i n w by (auto simp: writeSlice_fields slicesWritten_iff nth_append)
  fix k assume k: "k < length (f ((rows @ [s]) ! i))"
  show "flatValues (arrayElements (writeSlice (length rows) c (f s) a))
          (sizeBefore nn f (take i (rows @ [s])) + k) = f ((rows @ [s]) ! i) ! k"
  proof (cases "i < length rows")
    case True
    with n have n': "nn (rows ! i)" by (simp add: nth_append)
    from k True have k': "k < length (f (rows ! i))" by (simp add: nth_append)
    from sizeBefore_take_le [where nn = nn and f = f and rows = rows and i = i, OF True n'] k'
    have "sizeBefore nn f (take i rows) + k < c" by (simp add: c)
    moreover from w True n' k'
    have "flatValues (arrayElements a) (sizeBefore nn f (take i rows) + k) = f (rows ! i) ! k"
      by (simp add: slicesWritten_iff)
    ultimately show ?thesis using True
      by (simp add: writeSlice_fields copyTo_before nth_append)
  next
    case False
    with i have "i = length rows" by simp
    with k show ?thesis
      by (simp add: writeSlice_fields c [symmetric] copyTo_at)
  qed
qed

lemma serializeLoop_invariant:
  assumes "Inv done st"
    and "\<And>done s st. Inv done st \<Longrightarrow> Inv (done @ [s]) (serializeRow s (length done) st)"
  shows "Inv (done @ sketches) (serializeLoop sketches (length done) st)"
  using assms(1)
proof (induction sketches arbitrary: "done" st)
  case Nil
  then show ?case by simp
next
  case (Cons s sketches)
  from assms(2) [OF Cons.prems] have "Inv (done @ [s]) (serializeRow s (length done) st)" .
  from Cons.IH [OF this] show ?case by simp
qed


lemma countItemsAndLevels_sum:
  "countItemsAndLevels sketches counts =
     (fst counts + sum_list (map (\<lambda>s. length (skItems s)) sketches),
      snd counts + sum_list (map (\<lambda>s. length (skLevels s)) sketches))"
  by (induction sketches arbitrary: counts) (simp_all add: Let_def toView_def)

lemma sizeBefore_le_total:
  "sizeBefore nn f rows \<le> sum_list (map (\<lambda>s. length (f s)) rows)"
  by (induction rows) (simp_all add: sizeBefore_def)

lemma serializeLoop_rows:
  fixes r0 :: "'a RowVector" and sketches :: "'a KllSketch list"
  defines "out \<equiv> serializeLoop sketches 0 (r0, 0, 0)"
  shows "slicesWritten (\<lambda>s. skN s \<noteq> 0) skItems sketches (childItems (fst out)) (fst (snd out))"
    and "slicesWritten (\<lambda>s. skN s \<noteq> 0) skLevels sketches (childLevels (fst out)) (snd (snd out))"
    and "\<forall>i < length sketches. vecIsNullAt (rowBase (fst out)) i \<longleftrightarrow> skN (sketches ! i) = 0"
    and "vecSize (rowBase (fst out)) = vecSize (rowBase r0)"
    and "childPercentiles (fst out) = childPercentiles r0"
    and "childPercentilesIsArray (fst out) = childPercentilesIsArray r0"
    and "childAccuracy (fst out) = childAccuracy r0"
    and "vecSize (arrayElements (childItems (fst out))) = vecSize (arrayElements (childItems r0))"
    and "vecSize (arrayElements (childLevels (fst out))) = vecSize (arrayElements (childLevels r0))"
proof -
  define nn where "nn = (\<lambda>s :: 'a KllSketch. skN s \<noteq> 0)"
  define Inv where "Inv = (\<lambda>done (st :: 'a RowVector \<times> nat \<times> nat).
      slicesWritten nn skItems done (childItems (fst st)) (fst (snd st)) \<and>
      slicesWritten nn skLevels done (childLevels (fst st)) (snd (snd st)) \<and>
      (\<forall>i < length done. vecIsNullAt (rowBase (fst st)) i \<longleftrightarrow> \<not> nn (done ! i)) \<and>
      vecSize (rowBase (fst st)) = vecSize (rowBase r0) \<and>
      childPercentiles (fst st) = childPercentiles r0 \<and>
      childPercentilesIsArray (fst st) = childPercentilesIsArray r0 \<and>
      childAccuracy (fst st) = childAccuracy r0 \<and>
      vecSize (arrayElements (childItems (fst st))) = vecSize (arrayElements (childItems r0)) \<and>
      vecSize (arrayElements (childLevels (fst st))) = vecSize (arrayElements (childLevels r0)))"
  have init: "Inv [] (r0, 0, 0)"
    by (simp add: Inv_def slicesWritten_iff sizeBefore_def)
  have step: "Inv (done @ [s]) (serializeRow s (length done) st)" if inv: "Inv done st"
    for "done" s st
  proof (cases "skN s = 0")
    case True
    then have n: "\<not> nn s" by (simp add: nn_def)
    from inv have a: "slicesWritten nn skItems done (childItems (fst st)) (fst (snd st))"
      and b: "slicesWritten nn skLevels done (childLevels (fst st)) (snd (snd st))"
      by (simp_all add: Inv_def)
    from slicesWritten_null [OF a n] slicesWritten_null [OF b n] inv True n show ?thesis
      by (auto simp: Inv_def serializeRow_def Let_def toView_def vecIsNullAt_setNull
          vecSize_setNull nth_append)
  next
    case False
    then have n: "nn s" by (simp add: nn_def)
    from inv have a: "slicesWritten nn skItems done (childItems (fst st)) (fst (snd st))"
      and b: "slicesWritten nn skLevels done (childLevels (fst st)) (snd (snd st))"
      by (simp_all add: Inv_def)
    from slicesWritten_write [OF a n] slicesWritten_write [OF b n] inv False n show ?thesis
      by (auto simp: Inv_def serializeRow_def Let_def toView_def vecIsNullAt_setNull
          vecSize_setNull nth_append writeSlice_fields)
  qed
  have "Inv ([] @ sketches) (serializeLoop sketches (length ([] :: 'a KllSketch list)) (r0, 0, 0))"
    by (rule serializeLoop_invariant [where Inv = Inv]) (blast intro: init step)+
  then have "Inv sketches out" by (simp add: out_def)
  then show
    "slicesWritten (\<lambda>s. skN s \<noteq> 0) skItems sketches (childItems (fst out)) (fst (snd out))"
    "slicesWritten (\<lambda>s. skN s \<noteq> 0) skLevels sketches (childLevels (fst out)) (snd (snd out))"
    "\<forall>i < length sketches. vecIsNullAt (rowBase (fst out)) i \<longleftrightarrow> skN (sketches ! i) = 0"
    "vecSize (rowBase (fst out)) = vecSize (rowBase r0)"
    "childPercentiles (fst out) = childPercentiles r0"
    "childPercentilesIsArray (fst out) = childPercentilesIsArray r0"
    "childAccuracy (fst out) = childAccuracy r0"
    "vecSize (arrayElements (childItems (fst out))) = vecSize (arrayElements (childItems r0))"
    "vecSize (arrayElements (childLevels (fst out))) = vecSize (arrayElements (childLevels r0))"
    by (simp_all add: Inv_def nn_def)
qed



lemma extractAccumulators_some:
  assumes some: "percentiles agg = Some p"
    and sk: "sketches = fst (compactGroups lib processSeed agg groups store)"
    and le: "sum_list (map (\<lambda>s. length (skItems s)) sketches) \<le> kMaxVectorSize"
  shows "\<exists>out. extractAccumulators lib processSeed agg groups store rowResult = Inr (store, out)
      \<and> childPercentiles out = Constant (length groups) False (percentileValues p)
      \<and> childPercentilesIsArray out = Constant (length groups) False (isArray p)
      \<and> childAccuracy out =
            Constant (length groups) (deq (accuracy agg) kMissingNormalizedValue) (accuracy agg)
      \<and> vecSize (rowBase out) = length groups
      \<and> (\<forall>i < length groups. vecIsNullAt (rowBase out) i \<longleftrightarrow> skN (sketches ! i) = 0)
      \<and> slicesWritten (\<lambda>s. skN s \<noteq> 0) skItems sketches (childItems out)
            (sizeBefore (\<lambda>s. skN s \<noteq> 0) skItems sketches)
      \<and> slicesWritten (\<lambda>s. skN s \<noteq> 0) skLevels sketches (childLevels out)
            (sizeBefore (\<lambda>s. skN s \<noteq> 0) skLevels sketches)
      \<and> vecSize (arrayElements (childItems out)) = sum_list (map (\<lambda>s. length (skItems s)) sketches)
      \<and> vecSize (arrayElements (childLevels out)) = sum_list (map (\<lambda>s. length (skLevels s)) sketches)"
proof -
  have len: "length sketches = length groups"
    by (simp add: sk compactGroups_result)
  have cg: "compactGroups lib processSeed agg groups store = (sketches, store)"
    by (simp add: sk compactGroups_result)
  define r where "r = rowResult
                    \<lparr>childPercentiles := Constant (length groups) False (percentileValues p),
                     childPercentilesIsArray := Constant (length groups) False (isArray p),
                     childAccuracy :=
                       Constant (length groups) (deq (accuracy agg) kMissingNormalizedValue)
                         (accuracy agg),
                     rowBase := vecResize (length groups) (rowBase rowResult),
                     childK := vecResize (length groups) (childK rowResult),
                     childN := vecResize (length groups) (childN rowResult),
                     childMinValue := vecResize (length groups) (childMinValue rowResult),
                     childMaxValue := vecResize (length groups) (childMaxValue rowResult),
                     childItems := vecResize (length groups) (childItems rowResult),
                     childLevels := vecResize (length groups) (childLevels rowResult)\<rparr>"
  define counts where "counts = countItemsAndLevels sketches (0, 0)"
  define r' where "r' = r
                          \<lparr>childItems := (childItems r)
                             \<lparr>arrayElements :=
                                vecResize (fst counts) (resetNulls (arrayElements (childItems r)))\<rparr>,
                           childLevels := (childLevels r)
                             \<lparr>arrayElements :=
                                vecResize (snd counts) (resetNulls (arrayElements (childLevels r)))\<rparr>\<rparr>"
  define out where "out = serializeLoop sketches 0 (r', 0, 0)"
  have counts: "fst counts = sum_list (map (\<lambda>s. length (skItems s)) sketches)"
    "snd counts = sum_list (map (\<lambda>s. length (skLevels s)) sketches)"
    by (simp_all add: counts_def countItemsAndLevels_sum)
  have run: "extractAccumulators lib processSeed agg groups store rowResult = Inr (store, fst out)"
    using some le unfolding out_def r'_def r_def counts_def
    by (simp add: extractAccumulators_def cg Let_def countItemsAndLevels_sum)
  have r'f: "childPercentiles r' = Constant (length groups) False (percentileValues p)"
    "childPercentilesIsArray r' = Constant (length groups) False (isArray p)"
    "childAccuracy r' =
       Constant (length groups) (deq (accuracy agg) kMissingNormalizedValue) (accuracy agg)"
    "vecSize (rowBase r') = length groups"
    "vecSize (arrayElements (childItems r')) = fst counts"
    "vecSize (arrayElements (childLevels r')) = snd counts"
    by (simp_all add: r'_def r_def vecSize_resize)
  note rows = serializeLoop_rows [of sketches r', folded out_def]
  have ic: "fst (snd out) = sizeBefore (\<lambda>s. skN s \<noteq> 0) skItems sketches"
    "snd (snd out) = sizeBefore (\<lambda>s. skN s \<noteq> 0) skLevels sketches"
    using rows(1,2) by (simp_all add: slicesWritten_iff)
  from run rows r'f ic counts len show ?thesis
    by (intro exI [of _ "fst out"]) simp
qed


lemma viewOf: "viewN (toView s) = skN s" "viewItems (toView s) = skItems s"
  "viewLevels (toView s) = skLevels s"
  by (simp_all add: toView_def)

text \<open>
  Claim C5.  \<^verbatim>\<open>extractAccumulators\<close> leaves the accumulators as they were.  When the
  percentiles were never resolved, the children \<open>percentiles\<close>, \<open>percentilesIsArray\<close> and
  \<open>accuracy\<close> of the result are null constants of \<open>numGroups\<close> rows, the result has at
  least \<open>numGroups\<close> rows and every row of it is null.  Otherwise (and when the check of the
  number of items passes) the three children are constants of \<open>numGroups\<close> rows that carry
  the operator's percentiles, its array flag and its accuracy, the last one null when the
  accuracy is unset; the result has \<open>numGroups\<close> rows, and row \<open>i\<close> is null exactly when
  the compacted sketch of group \<open>i\<close> has \<open>n = 0\<close>.
\<close>

theorem extractAccumulators_rows_and_constants:
  assumes "sketches = fst (compactGroups lib processSeed agg groups store)"
  shows "(percentiles agg = None \<longrightarrow>
            (\<exists>out. extractAccumulators lib processSeed agg groups store rowResult = Inr (store, out)
               \<and> childPercentiles out = NullConstant (length groups)
               \<and> childPercentilesIsArray out = NullConstant (length groups)
               \<and> childAccuracy out = NullConstant (length groups)
               \<and> length groups \<le> vecSize (rowBase out)
               \<and> (\<forall>i < vecSize (rowBase out). vecIsNullAt (rowBase out) i)))
         \<and> (\<forall>p. percentiles agg = Some p
                 \<and> sum_list (map (\<lambda>s. length (viewItems (toView s))) sketches) \<le> kMaxVectorSize
              \<longrightarrow>
            (\<exists>out. extractAccumulators lib processSeed agg groups store rowResult = Inr (store, out)
               \<and> childPercentiles out = Constant (length groups) False (percentileValues p)
               \<and> childPercentilesIsArray out = Constant (length groups) False (isArray p)
               \<and> childAccuracy out =
                     Constant (length groups) (deq (accuracy agg) kMissingNormalizedValue)
                       (accuracy agg)
               \<and> vecSize (rowBase out) = length groups
               \<and> (\<forall>i < length groups.
                     vecIsNullAt (rowBase out) i \<longleftrightarrow> viewN (toView (sketches ! i)) = 0)))"
proof (intro conjI allI impI)
  assume none: "percentiles agg = None"
  have cg: "compactGroups lib processSeed agg groups store = (sketches, store)"
    by (simp add: assms compactGroups_result)
  show "\<exists>out. extractAccumulators lib processSeed agg groups store rowResult = Inr (store, out)
               \<and> childPercentiles out = NullConstant (length groups)
               \<and> childPercentilesIsArray out = NullConstant (length groups)
               \<and> childAccuracy out = NullConstant (length groups)
               \<and> length groups \<le> vecSize (rowBase out)
               \<and> (\<forall>i < vecSize (rowBase out). vecIsNullAt (rowBase out) i)"
    using none
    by (simp add: extractAccumulators_def cg Let_def ensureWritable_def vecSize_resize
        vecFillNulls_def vecIsNullAt_def)
next
  fix p
  assume "percentiles agg = Some p
      \<and> sum_list (map (\<lambda>s. length (viewItems (toView s))) sketches) \<le> kMaxVectorSize"
  then have some: "percentiles agg = Some p"
    and le: "sum_list (map (\<lambda>s. length (skItems s)) sketches) \<le> kMaxVectorSize"
    by (simp_all add: viewOf)
  from extractAccumulators_some [OF some assms le, of rowResult]
  show "\<exists>out. extractAccumulators lib processSeed agg groups store rowResult = Inr (store, out)
               \<and> childPercentiles out = Constant (length groups) False (percentileValues p)
               \<and> childPercentilesIsArray out = Constant (length groups) False (isArray p)
               \<and> childAccuracy out =
                     Constant (length groups) (deq (accuracy agg) kMissingNormalizedValue)
                       (accuracy agg)
               \<and> vecSize (rowBase out) = length groups
               \<and> (\<forall>i < length groups.
                     vecIsNullAt (rowBase out) i \<longleftrightarrow> viewN (toView (sketches ! i)) = 0)"
    by (auto simp: viewOf)
qed

lemma exampleSketches:
  "fst (compactGroups plainLib 0 arrayAggregate [0, 1, 2] exampleGroups) =
     [\<lparr>skK = 200, skN = 602, skMinValue = 3, skMaxValue = 7, skItems = [3, 5, 7, 7, 7, 7],
       skLevels = [0, 2, 2, 2, 3, 4, 4, 5, 5, 5, 6], skIsLevelZeroSorted = True,
       skAllocator = StdAllocator, skSeed = 42\<rparr>,
      \<lparr>skK = 200, skN = 0, skMinValue = 0, skMaxValue = 0, skItems = [], skLevels = [0, 0],
       skIsLevelZeroSorted = True, skAllocator = StdAllocator, skSeed = 42\<rparr>,
      \<lparr>skK = 200, skN = 1, skMinValue = 9, skMaxValue = 9, skItems = [9], skLevels = [0, 1],
       skIsLevelZeroSorted = True, skAllocator = StdAllocator, skSeed = 42\<rparr>]"
  by code_simp

theorem extractAccumulators_rows_and_constants_witness:
  "(\<exists>out. extractAccumulators plainLib 0 exampleAggregate [0, 1, 2] exampleGroups emptyRowVector =
            Inr (exampleGroups, out)
      \<and> childPercentiles out = NullConstant 3
      \<and> childPercentilesIsArray out = NullConstant 3
      \<and> childAccuracy out = NullConstant 3
      \<and> vecIsNullAt (rowBase out) 0 \<and> vecIsNullAt (rowBase out) 1 \<and> vecIsNullAt (rowBase out) 2)
   \<and> (\<exists>out. extractAccumulators plainLib 0 arrayAggregate [0, 1, 2] exampleGroups emptyRowVector =
            Inr (exampleGroups, out)
      \<and> childPercentiles out = Constant 3 False [Finite 0, Finite (1 / 2), Finite 1]
      \<and> childPercentilesIsArray out = Constant 3 False True
      \<and> childAccuracy out = Constant 3 True (Finite (- 1))
      \<and> vecSize (rowBase out) = 3
      \<and> \<not> vecIsNullAt (rowBase out) 0 \<and> vecIsNullAt (rowBase out) 1
      \<and> \<not> vecIsNullAt (rowBase out) 2)"
proof -
  define sk where "sk = fst (compactGroups plainLib 0 arrayAggregate [0, 1, 2] exampleGroups)"
  have none: "percentiles exampleAggregate = None"
    by (simp add: exampleAggregate_def)
  have some: "percentiles arrayAggregate =
      Some \<lparr>percentileValues = [Finite 0, Finite (1 / 2), Finite 1], isArray = True\<rparr>"
    by (simp add: arrayAggregate_def)
  have acc: "accuracy arrayAggregate = Finite (- 1)"
    by (simp add: arrayAggregate_def exampleAggregate_def kMissingNormalizedValue_def)
  have n: "viewN (toView (sk ! 0)) = 602" "viewN (toView (sk ! 1)) = 0"
    "viewN (toView (sk ! 2)) = 1"
    unfolding sk_def exampleSketches by (simp_all add: toView_def)
  have le: "sum_list (map (\<lambda>s. length (viewItems (toView s))) sk) \<le> kMaxVectorSize"
    unfolding sk_def exampleSketches by (simp add: toView_def kMaxVectorSize_def)
  from extractAccumulators_rows_and_constants
    [where lib = plainLib and processSeed = 0 and agg = exampleAggregate
       and groups = "[0, 1, 2]" and store = exampleGroups and rowResult = emptyRowVector,
     OF refl] none
  obtain out where a: "extractAccumulators plainLib 0 exampleAggregate [0, 1, 2] exampleGroups
        emptyRowVector = Inr (exampleGroups, out)"
    "childPercentiles out = NullConstant 3" "childPercentilesIsArray out = NullConstant 3"
    "childAccuracy out = NullConstant 3"
    "3 \<le> vecSize (rowBase out)" "\<forall>i < vecSize (rowBase out). vecIsNullAt (rowBase out) i"
    by auto
  from a(5,6) have an: "vecIsNullAt (rowBase out) 0" "vecIsNullAt (rowBase out) 1"
    "vecIsNullAt (rowBase out) 2"
    by simp_all
  from extractAccumulators_rows_and_constants
    [where lib = plainLib and processSeed = 0 and agg = arrayAggregate
       and groups = "[0, 1, 2]" and store = exampleGroups and rowResult = emptyRowVector
       and sketches = sk, OF sk_def] some le
  obtain out' where b: "extractAccumulators plainLib 0 arrayAggregate [0, 1, 2] exampleGroups
        emptyRowVector = Inr (exampleGroups, out')"
    "childPercentiles out' = Constant 3 False [Finite 0, Finite (1 / 2), Finite 1]"
    "childPercentilesIsArray out' = Constant 3 False True"
    "childAccuracy out' =
       Constant 3 (deq (accuracy arrayAggregate) kMissingNormalizedValue) (accuracy arrayAggregate)"
    "vecSize (rowBase out') = 3"
    "\<forall>i < 3. vecIsNullAt (rowBase out') i \<longleftrightarrow> viewN (toView (sk ! i)) = 0"
    by auto
  from b(6) n have bn: "\<not> vecIsNullAt (rowBase out') 0" "vecIsNullAt (rowBase out') 1"
    "\<not> vecIsNullAt (rowBase out') 2"
    by simp_all
  have bacc: "childAccuracy out' = Constant 3 True (Finite (- 1))"
    by (simp add: b(4) acc kMissingNormalizedValue_def)
  from a(1-4) an b(1-3,5) bacc bn show ?thesis by blast
qed

lemma sizeBefore_split:
  "sum_list (map (\<lambda>s. length (f s)) rows) =
     sizeBefore nn f rows + sizeBefore (\<lambda>s. \<not> nn s) f rows"
  by (induction rows) (simp_all add: sizeBefore_def)

lemma slicesWritten_rows:
  assumes w: "slicesWritten nn f rows a c" and i: "i < length rows" and n: "nn (rows ! i)"
  shows "arrayOffsets a i = sizeBefore nn f (take i rows)"
    and "arraySizes a i = length (f (rows ! i))"
    and "arraySlice a i = f (rows ! i)"
    and "arrayOffsets a i + arraySizes a i \<le> sizeBefore nn f rows"
    and "\<forall>j < i. nn (rows ! j) \<longrightarrow> arrayOffsets a j + arraySizes a j \<le> arrayOffsets a i"
proof -
  from w i n show row: "arrayOffsets a i = sizeBefore nn f (take i rows)"
    "arraySizes a i = length (f (rows ! i))" "arraySlice a i = f (rows ! i)"
    by (simp_all add: slicesWritten_def list_all_iff)
  from sizeBefore_take_le [where nn = nn and f = f and rows = rows and i = i, OF i n]
  show "arrayOffsets a i + arraySizes a i \<le> sizeBefore nn f rows"
    by (simp add: row)
  have before: "arrayOffsets a j + arraySizes a j \<le> arrayOffsets a i"
    if j: "j < i" and nj: "nn (rows ! j)" for j
  proof -
    from j i have j': "j < length rows" by simp
    from w j' nj have rowj: "arrayOffsets a j = sizeBefore nn f (take j rows)"
      "arraySizes a j = length (f (rows ! j))"
      by (simp_all add: slicesWritten_def list_all_iff)
    have "j < length (take i rows)" "nn (take i rows ! j)"
      using j i nj by simp_all
    from sizeBefore_take_le [where nn = nn and f = f and rows = "take i rows" and i = j,
        OF this]
    have "sizeBefore nn f (take j rows) + length (f (rows ! j))
        \<le> sizeBefore nn f (take i rows)"
      using j by (simp add: min_def)
    then show ?thesis by (simp add: row rowj)
  qed
  then show "\<forall>j < i. nn (rows ! j) \<longrightarrow> arrayOffsets a j + arraySizes a j \<le> arrayOffsets a i"
    by blast
qed

text \<open>
  Claim C10, as amended.  In the result of \<^verbatim>\<open>extractAccumulators\<close> (percentiles resolved, the
  check of the number of items passed), the row of every group \<open>i\<close> whose compacted sketch has
  \<open>n \<noteq> 0\<close> names, in the child \<open>items\<close>, the slice that starts at the sum of the sizes of
  the earlier rows that are not null, has the length of the items of the sketch's view and
  holds these items; the slice of an earlier row that is not null ends at or before its
  start, and every slice ends at or before the sum of the sizes of all rows that are not
  null.  The same holds of the child \<open>levels\<close> and the levels of the view.  A null row is
  given no slice and adds nothing to the offsets.  It does add to the vectors of elements:
  these have the sizes that the first loop counted over the views of all the sketches, so
  behind the last slice each vector holds as many elements as the views of the null rows
  have items (levels), and these elements belong to no row.
\<close>

theorem extractAccumulators_slices:
  assumes "percentiles agg = Some p"
    and "sketches = fst (compactGroups lib processSeed agg groups store)"
    and "sum_list (map (\<lambda>s. length (viewItems (toView s))) sketches) \<le> kMaxVectorSize"
  shows "\<exists>out. extractAccumulators lib processSeed agg groups store rowResult = Inr (store, out)
      \<and> (\<forall>i < length groups. viewN (toView (sketches ! i)) \<noteq> 0 \<longrightarrow>
            arrayOffsets (childItems out) i =
              sizeBefore (\<lambda>s. viewN (toView s) \<noteq> 0) (\<lambda>s. viewItems (toView s)) (take i sketches)
            \<and> arraySizes (childItems out) i = length (viewItems (toView (sketches ! i)))
            \<and> arraySlice (childItems out) i = viewItems (toView (sketches ! i))
            \<and> arrayOffsets (childItems out) i + arraySizes (childItems out) i
                  \<le> sizeBefore (\<lambda>s. viewN (toView s) \<noteq> 0) (\<lambda>s. viewItems (toView s)) sketches
            \<and> arrayOffsets (childItems out) i + arraySizes (childItems out) i
                  \<le> vecSize (arrayElements (childItems out))
            \<and> arrayOffsets (childLevels out) i =
              sizeBefore (\<lambda>s. viewN (toView s) \<noteq> 0) (\<lambda>s. viewLevels (toView s)) (take i sketches)
            \<and> arraySizes (childLevels out) i = length (viewLevels (toView (sketches ! i)))
            \<and> arraySlice (childLevels out) i = viewLevels (toView (sketches ! i))
            \<and> arrayOffsets (childLevels out) i + arraySizes (childLevels out) i
                  \<le> sizeBefore (\<lambda>s. viewN (toView s) \<noteq> 0) (\<lambda>s. viewLevels (toView s)) sketches
            \<and> arrayOffsets (childLevels out) i + arraySizes (childLevels out) i
                  \<le> vecSize (arrayElements (childLevels out))
            \<and> (\<forall>j < i. viewN (toView (sketches ! j)) \<noteq> 0 \<longrightarrow>
                   arrayOffsets (childItems out) j + arraySizes (childItems out) j
                     \<le> arrayOffsets (childItems out) i
                   \<and> arrayOffsets (childLevels out) j + arraySizes (childLevels out) j
                     \<le> arrayOffsets (childLevels out) i))
      \<and> vecSize (arrayElements (childItems out)) =
            sum_list (map (\<lambda>s. length (viewItems (toView s))) sketches)
      \<and> vecSize (arrayElements (childLevels out)) =
            sum_list (map (\<lambda>s. length (viewLevels (toView s))) sketches)
      \<and> vecSize (arrayElements (childItems out)) =
            sizeBefore (\<lambda>s. viewN (toView s) \<noteq> 0) (\<lambda>s. viewItems (toView s)) sketches
            + sizeBefore (\<lambda>s. viewN (toView s) = 0) (\<lambda>s. viewItems (toView s)) sketches
      \<and> vecSize (arrayElements (childLevels out)) =
            sizeBefore (\<lambda>s. viewN (toView s) \<noteq> 0) (\<lambda>s. viewLevels (toView s)) sketches
            + sizeBefore (\<lambda>s. viewN (toView s) = 0) (\<lambda>s. viewLevels (toView s)) sketches"
proof -
  define nn where "nn = (\<lambda>s :: 'a KllSketch. skN s \<noteq> 0)"
  have le: "sum_list (map (\<lambda>s. length (skItems s)) sketches) \<le> kMaxVectorSize"
    using assms(3) by (simp add: viewOf)
  have len: "length sketches = length groups"
    by (simp add: assms(2) compactGroups_result)
  from extractAccumulators_some [OF assms(1,2) le, of rowResult]
  obtain out where run: "extractAccumulators lib processSeed agg groups store rowResult = Inr (store, out)"
    and wi: "slicesWritten nn skItems sketches (childItems out) (sizeBefore nn skItems sketches)"
    and wl: "slicesWritten nn skLevels sketches (childLevels out) (sizeBefore nn skLevels sketches)"
    and si: "vecSize (arrayElements (childItems out)) = sum_list (map (\<lambda>s. length (skItems s)) sketches)"
    and sl: "vecSize (arrayElements (childLevels out)) = sum_list (map (\<lambda>s. length (skLevels s)) sketches)"
    unfolding nn_def by blast
  have ti: "sizeBefore nn skItems sketches \<le> vecSize (arrayElements (childItems out))"
    and tl: "sizeBefore nn skLevels sketches \<le> vecSize (arrayElements (childLevels out))"
    by (simp_all add: si sl sizeBefore_le_total)
  have "\<forall>i < length groups. viewN (toView (sketches ! i)) \<noteq> 0 \<longrightarrow>
            arrayOffsets (childItems out) i =
              sizeBefore (\<lambda>s. viewN (toView s) \<noteq> 0) (\<lambda>s. viewItems (toView s)) (take i sketches)
            \<and> arraySizes (childItems out) i = length (viewItems (toView (sketches ! i)))
            \<and> arraySlice (childItems out) i = viewItems (toView (sketches ! i))
            \<and> arrayOffsets (childItems out) i + arraySizes (childItems out) i
                  \<le> sizeBefore (\<lambda>s. viewN (toView s) \<noteq> 0) (\<lambda>s. viewItems (toView s)) sketches
            \<and> arrayOffsets (childItems out) i + arraySizes (childItems out) i
                  \<le> vecSize (arrayElements (childItems out))
            \<and> arrayOffsets (childLevels out) i =
              sizeBefore (\<lambda>s. viewN (toView s) \<noteq> 0) (\<lambda>s. viewLevels (toView s)) (take i sketches)
            \<and> arraySizes (childLevels out) i = length (viewLevels (toView (sketches ! i)))
            \<and> arraySlice (childLevels out) i = viewLevels (toView (sketches ! i))
            \<and> arrayOffsets (childLevels out) i + arraySizes (childLevels out) i
                  \<le> sizeBefore (\<lambda>s. viewN (toView s) \<noteq> 0) (\<lambda>s. viewLevels (toView s)) sketches
            \<and> arrayOffsets (childLevels out) i + arraySizes (childLevels out) i
                  \<le> vecSize (arrayElements (childLevels out))
            \<and> (\<forall>j < i. viewN (toView (sketches ! j)) \<noteq> 0 \<longrightarrow>
                   arrayOffsets (childItems out) j + arraySizes (childItems out) j
                     \<le> arrayOffsets (childItems out) i
                   \<and> arrayOffsets (childLevels out) j + arraySizes (childLevels out) j
                     \<le> arrayOffsets (childLevels out) i)"
  proof (intro allI impI)
    fix i assume i: "i < length groups" and n: "viewN (toView (sketches ! i)) \<noteq> 0"
    from i len have i': "i < length sketches" by simp
    from n have n': "nn (sketches ! i)" by (simp add: nn_def viewOf)
    note ri = slicesWritten_rows [OF wi i' n'] and rl = slicesWritten_rows [OF wl i' n']
    from ri(4) ti have vi: "arrayOffsets (childItems out) i + arraySizes (childItems out) i
        \<le> vecSize (arrayElements (childItems out))" by simp
    from rl(4) tl have vl: "arrayOffsets (childLevels out) i + arraySizes (childLevels out) i
        \<le> vecSize (arrayElements (childLevels out))" by simp
    from ri(5) rl(5) have bef: "\<forall>j < i. nn (sketches ! j) \<longrightarrow>
        arrayOffsets (childItems out) j + arraySizes (childItems out) j
          \<le> arrayOffsets (childItems out) i
        \<and> arrayOffsets (childLevels out) j + arraySizes (childLevels out) j
          \<le> arrayOffsets (childLevels out) i" by blast
    from ri(1-4) rl(1-4) vi vl bef
    show "arrayOffsets (childItems out) i =
              sizeBefore (\<lambda>s. viewN (toView s) \<noteq> 0) (\<lambda>s. viewItems (toView s)) (take i sketches)
            \<and> arraySizes (childItems out) i = length (viewItems (toView (sketches ! i)))
            \<and> arraySlice (childItems out) i = viewItems (toView (sketches ! i))
            \<and> arrayOffsets (childItems out) i + arraySizes (childItems out) i
                  \<le> sizeBefore (\<lambda>s. viewN (toView s) \<noteq> 0) (\<lambda>s. viewItems (toView s)) sketches
            \<and> arrayOffsets (childItems out) i + arraySizes (childItems out) i
                  \<le> vecSize (arrayElements (childItems out))
            \<and> arrayOffsets (childLevels out) i =
              sizeBefore (\<lambda>s. viewN (toView s) \<noteq> 0) (\<lambda>s. viewLevels (toView s)) (take i sketches)
            \<and> arraySizes (childLevels out) i = length (viewLevels (toView (sketches ! i)))
            \<and> arraySlice (childLevels out) i = viewLevels (toView (sketches ! i))
            \<and> arrayOffsets (childLevels out) i + arraySizes (childLevels out) i
                  \<le> sizeBefore (\<lambda>s. viewN (toView s) \<noteq> 0) (\<lambda>s. viewLevels (toView s)) sketches
            \<and> arrayOffsets (childLevels out) i + arraySizes (childLevels out) i
                  \<le> vecSize (arrayElements (childLevels out))
            \<and> (\<forall>j < i. viewN (toView (sketches ! j)) \<noteq> 0 \<longrightarrow>
                   arrayOffsets (childItems out) j + arraySizes (childItems out) j
                     \<le> arrayOffsets (childItems out) i
                   \<and> arrayOffsets (childLevels out) j + arraySizes (childLevels out) j
                     \<le> arrayOffsets (childLevels out) i)"
      unfolding viewOf nn_def by blast
  qed
  moreover have "vecSize (arrayElements (childItems out)) =
            sum_list (map (\<lambda>s. length (viewItems (toView s))) sketches)"
    "vecSize (arrayElements (childLevels out)) =
            sum_list (map (\<lambda>s. length (viewLevels (toView s))) sketches)"
    by (simp_all add: si sl viewOf)
  moreover have "vecSize (arrayElements (childItems out)) =
            sizeBefore (\<lambda>s. viewN (toView s) \<noteq> 0) (\<lambda>s. viewItems (toView s)) sketches
            + sizeBefore (\<lambda>s. viewN (toView s) = 0) (\<lambda>s. viewItems (toView s)) sketches"
    "vecSize (arrayElements (childLevels out)) =
            sizeBefore (\<lambda>s. viewN (toView s) \<noteq> 0) (\<lambda>s. viewLevels (toView s)) sketches
            + sizeBefore (\<lambda>s. viewN (toView s) = 0) (\<lambda>s. viewLevels (toView s)) sketches"
    using sizeBefore_split [where nn = "\<lambda>s. skN s \<noteq> 0" and f = skItems and rows = sketches]
      sizeBefore_split [where nn = "\<lambda>s. skN s \<noteq> 0" and f = skLevels and rows = sketches]
    by (simp_all add: viewOf si sl)
  ultimately show ?thesis using run by blast
qed

theorem extractAccumulators_slices_witness:
  "\<exists>out. extractAccumulators plainLib 0 arrayAggregate [0, 1, 2] exampleGroups emptyRowVector =
            Inr (exampleGroups, out)
      \<and> arrayOffsets (childItems out) 0 = 0 \<and> arraySizes (childItems out) 0 = 6
      \<and> arraySlice (childItems out) 0 = [3, 5, 7, 7, 7, 7]
      \<and> arrayOffsets (childItems out) 2 = 6 \<and> arraySizes (childItems out) 2 = 1
      \<and> arraySlice (childItems out) 2 = [9]
      \<and> arrayOffsets (childLevels out) 0 = 0 \<and> arraySizes (childLevels out) 0 = 11
      \<and> arraySlice (childLevels out) 0 = [0, 2, 2, 2, 3, 4, 4, 5, 5, 5, 6]
      \<and> arrayOffsets (childLevels out) 2 = 11 \<and> arraySizes (childLevels out) 2 = 2
      \<and> arraySlice (childLevels out) 2 = [0, 1]
      \<and> vecSize (arrayElements (childItems out)) = 7
      \<and> vecSize (arrayElements (childLevels out)) = 15"
proof -
  define sk where "sk = fst (compactGroups plainLib 0 arrayAggregate [0, 1, 2] exampleGroups)"
  have some: "percentiles arrayAggregate =
      Some \<lparr>percentileValues = [Finite 0, Finite (1 / 2), Finite 1], isArray = True\<rparr>"
    by (simp add: arrayAggregate_def)
  have le: "sum_list (map (\<lambda>s. length (viewItems (toView s))) sk) \<le> kMaxVectorSize"
    unfolding sk_def exampleSketches by (simp add: toView_def kMaxVectorSize_def)
  have n: "viewN (toView (sk ! 0)) \<noteq> 0" "viewN (toView (sk ! 2)) \<noteq> 0"
    unfolding sk_def exampleSketches by (simp_all add: toView_def)
  have v: "viewItems (toView (sk ! 0)) = [3, 5, 7, 7, 7, 7]" "viewItems (toView (sk ! 2)) = [9]"
    "viewLevels (toView (sk ! 0)) = [0, 2, 2, 2, 3, 4, 4, 5, 5, 5, 6]"
    "viewLevels (toView (sk ! 2)) = [0, 1]"
    unfolding sk_def exampleSketches by (simp_all add: toView_def)
  have before:
    "sizeBefore (\<lambda>s. viewN (toView s) \<noteq> 0) (\<lambda>s. viewItems (toView s)) (take 0 sk) = 0"
    "sizeBefore (\<lambda>s. viewN (toView s) \<noteq> 0) (\<lambda>s. viewItems (toView s)) (take 2 sk) = 6"
    "sizeBefore (\<lambda>s. viewN (toView s) \<noteq> 0) (\<lambda>s. viewLevels (toView s)) (take 0 sk) = 0"
    "sizeBefore (\<lambda>s. viewN (toView s) \<noteq> 0) (\<lambda>s. viewLevels (toView s)) (take 2 sk) = 11"
    unfolding sk_def exampleSketches by (simp_all add: toView_def sizeBefore_def)
  have total: "sum_list (map (\<lambda>s. length (viewItems (toView s))) sk) = 7"
    "sum_list (map (\<lambda>s. length (viewLevels (toView s))) sk) = 15"
    unfolding sk_def exampleSketches by (simp_all add: toView_def)
  from extractAccumulators_slices [OF some sk_def le, of emptyRowVector]
  obtain out where run: "extractAccumulators plainLib 0 arrayAggregate [0, 1, 2] exampleGroups
        emptyRowVector = Inr (exampleGroups, out)"
    and rows: "\<forall>i < 3. viewN (toView (sk ! i)) \<noteq> 0 \<longrightarrow>
            arrayOffsets (childItems out) i =
              sizeBefore (\<lambda>s. viewN (toView s) \<noteq> 0) (\<lambda>s. viewItems (toView s)) (take i sk)
            \<and> arraySizes (childItems out) i = length (viewItems (toView (sk ! i)))
            \<and> arraySlice (childItems out) i = viewItems (toView (sk ! i))
            \<and> arrayOffsets (childLevels out) i =
              sizeBefore (\<lambda>s. viewN (toView s) \<noteq> 0) (\<lambda>s. viewLevels (toView s)) (take i sk)
            \<and> arraySizes (childLevels out) i = length (viewLevels (toView (sk ! i)))
            \<and> arraySlice (childLevels out) i = viewLevels (toView (sk ! i))"
    and sizes: "vecSize (arrayElements (childItems out)) =
            sum_list (map (\<lambda>s. length (viewItems (toView s))) sk)"
      "vecSize (arrayElements (childLevels out)) =
            sum_list (map (\<lambda>s. length (viewLevels (toView s))) sk)"
    by auto
  from rows n(1) have r0: "arrayOffsets (childItems out) 0 = 0" "arraySizes (childItems out) 0 = 6"
    "arraySlice (childItems out) 0 = [3, 5, 7, 7, 7, 7]"
    "arrayOffsets (childLevels out) 0 = 0" "arraySizes (childLevels out) 0 = 11"
    "arraySlice (childLevels out) 0 = [0, 2, 2, 2, 3, 4, 4, 5, 5, 5, 6]"
    using v(1,3) before(1,3) by simp_all
  have "(2 :: nat) < 3" by simp
  with rows n(2) have r2: "arrayOffsets (childItems out) 2 = 6" "arraySizes (childItems out) 2 = 1"
    "arraySlice (childItems out) 2 = [9]"
    "arrayOffsets (childLevels out) 2 = 11" "arraySizes (childLevels out) 2 = 2"
    "arraySlice (childLevels out) 2 = [0, 1]"
    using v(2,4) before(2,4) by simp_all
  from run r0 r2 sizes total show ?thesis by simp
qed

text \<open>
  Claim C10 as stated fails in its last clause, that null rows contribute no elements.  Of
  the three groups of the example, group 1 is empty: its row is null, and the view of its
  sketch has no items and the two levels \<open>[0, 0]\<close>.  The slices of the rows 0 and 2 are the
  elements 0 to 10 and 11 to 12 of the levels, and the vector of the levels' elements has 15
  elements: the elements 13 and 14 were counted for the null row.
\<close>

theorem extractAccumulators_null_row_elements:
  "\<not> isl (extractAccumulators plainLib 0 arrayAggregate [0, 1, 2] exampleGroups emptyRowVector)
   \<and> vecIsNullAt (rowBase (snd (projr
         (extractAccumulators plainLib 0 arrayAggregate [0, 1, 2] exampleGroups emptyRowVector)))) 1
   \<and> viewLevels (toView (fst (compactGroups plainLib 0 arrayAggregate [0, 1, 2] exampleGroups) ! 1))
       = [0, 0]
   \<and> arrayOffsets (childLevels (snd (projr
         (extractAccumulators plainLib 0 arrayAggregate [0, 1, 2] exampleGroups emptyRowVector)))) 0
       = 0
   \<and> arraySizes (childLevels (snd (projr
         (extractAccumulators plainLib 0 arrayAggregate [0, 1, 2] exampleGroups emptyRowVector)))) 0
       = 11
   \<and> arrayOffsets (childLevels (snd (projr
         (extractAccumulators plainLib 0 arrayAggregate [0, 1, 2] exampleGroups emptyRowVector)))) 2
       = 11
   \<and> arraySizes (childLevels (snd (projr
         (extractAccumulators plainLib 0 arrayAggregate [0, 1, 2] exampleGroups emptyRowVector)))) 2
       = 2
   \<and> vecSize (arrayElements (childLevels (snd (projr
         (extractAccumulators plainLib 0 arrayAggregate [0, 1, 2] exampleGroups emptyRowVector)))))
       = 15"
proof -
  define sk where "sk = fst (compactGroups plainLib 0 arrayAggregate [0, 1, 2] exampleGroups)"
  define nn where "nn = (\<lambda>s :: int KllSketch. skN s \<noteq> 0)"
  have some: "percentiles arrayAggregate =
      Some \<lparr>percentileValues = [Finite 0, Finite (1 / 2), Finite 1], isArray = True\<rparr>"
    by (simp add: arrayAggregate_def)
  have le: "sum_list (map (\<lambda>s. length (skItems s)) sk) \<le> kMaxVectorSize"
    unfolding sk_def exampleSketches by (simp add: kMaxVectorSize_def)
  have len: "length sk = 3" "(0 :: nat) < 3" "(1 :: nat) < 3" "(2 :: nat) < 3"
    unfolding sk_def exampleSketches by simp_all
  have n: "nn (sk ! 0)" "skN (sk ! 1) = 0" "nn (sk ! 2)"
    unfolding sk_def exampleSketches nn_def by simp_all
  have v: "length (skLevels (sk ! 0)) = 11" "length (skLevels (sk ! 2)) = 2"
    "viewLevels (toView (sk ! 1)) = [0, 0]"
    unfolding sk_def exampleSketches by (simp_all add: toView_def)
  have before: "sizeBefore nn skLevels (take 0 sk) = 0" "sizeBefore nn skLevels (take 2 sk) = 11"
    unfolding sk_def exampleSketches nn_def by (simp_all add: sizeBefore_def)
  have total: "sum_list (map (\<lambda>s. length (skLevels s)) sk) = 15"
    unfolding sk_def exampleSketches by simp
  from extractAccumulators_some [OF some sk_def le, of emptyRowVector]
  obtain out where run: "extractAccumulators plainLib 0 arrayAggregate [0, 1, 2] exampleGroups
        emptyRowVector = Inr (exampleGroups, out)"
    and nulls: "\<forall>i < 3. vecIsNullAt (rowBase out) i \<longleftrightarrow> skN (sk ! i) = 0"
    and wl: "slicesWritten nn skLevels sk (childLevels out) (sizeBefore nn skLevels sk)"
    and sl: "vecSize (arrayElements (childLevels out)) = sum_list (map (\<lambda>s. length (skLevels s)) sk)"
    unfolding nn_def by auto
  from nulls n(2) len(3) have null1: "vecIsNullAt (rowBase out) 1" by blast
  have r0: "arrayOffsets (childLevels out) 0 = 0" "arraySizes (childLevels out) 0 = 11"
    using slicesWritten_rows(1,2) [OF wl _ n(1)] len(1) v(1) before(1) by simp_all
  have r2: "arrayOffsets (childLevels out) 2 = 11" "arraySizes (childLevels out) 2 = 2"
    using slicesWritten_rows(1,2) [OF wl _ n(3)] len(1) v(2) before(2) by simp_all
  from null1 r0 r2 sl total v(3) show ?thesis
    unfolding run sk_def [symmetric] by simp
qed
end
